theory Spec2Isabelle
  imports Complex_Main "HOL-Library.AList"
begin

section \<open>Python values handled by agent.py\<close>

text \<open>
  The agent exchanges line-delimited JSON with its tool servers.  Every value it inspects
  is a document as \<^verbatim>\<open>json.loads\<close> produces it: \<^verbatim>\<open>None\<close>, a bool, an int, a
  float, a str, a list, or a dict whose keys are str.  A Python \<^verbatim>\<open>str\<close> is represented
  by its UTF-8 bytes, a dict by an association list in insertion order (Python dicts
  iterate in insertion order), a float by its exact rational value or one of the special
  values of IEEE 754.
\<close>

datatype pyfloat = PyFinite rat | PyNegZero | PyInf | PyNegInf | PyNaN

datatype json =
    JNull
  | JBool bool
  | JInt int
  | JFloat pyfloat
  | JStr string
  | JArr "json list"
  | JObj "(string \<times> json) list"

text \<open>The exceptions that the modelled statements can raise.\<close>

datatype py_error = JSONDecodeError | AttributeError | TypeError | KeyError | BrokenPipeError

text \<open>
  Dict keys.  Python finds a key by hash and \<^verbatim>\<open>==\<close>, under which \<^verbatim>\<open>True\<close>, \<^verbatim>\<open>1\<close>
  and \<^verbatim>\<open>1.0\<close> are one key; lists and dicts are unhashable (\<^verbatim>\<open>TypeError\<close>).  \<open>key_of\<close>
  maps a hashable value to a canonical key on which HOL equality is Python's key
  equality, and an unhashable one to \<open>None\<close>.
\<close>

datatype pykey = KNone | KNum rat | KInf | KNegInf | KNaN | KStr string

fun float_key :: "pyfloat \<Rightarrow> pykey" where
  "float_key (PyFinite r) = KNum r"
| "float_key PyNegZero = KNum 0"
| "float_key PyInf = KInf"
| "float_key PyNegInf = KNegInf"
| "float_key PyNaN = KNaN"

fun key_of :: "json \<Rightarrow> pykey option" where
  "key_of JNull = Some KNone"
| "key_of (JBool b) = Some (KNum (if b then 1 else 0))"
| "key_of (JInt n) = Some (KNum (of_int n))"
| "key_of (JFloat f) = Some (float_key f)"
| "key_of (JStr s) = Some (KStr s)"
| "key_of (JArr xs) = None"
| "key_of (JObj kvs) = None"

text \<open>Truth value of a document: what \<^verbatim>\<open>not v\<close> negates.\<close>

fun py_bool :: "json \<Rightarrow> bool" where
  "py_bool JNull = False"
| "py_bool (JBool b) = b"
| "py_bool (JInt n) = (n \<noteq> 0)"
| "py_bool (JFloat f) = (f \<noteq> PyFinite 0 \<and> f \<noteq> PyNegZero)"
| "py_bool (JStr s) = (s \<noteq> [])"
| "py_bool (JArr xs) = (xs \<noteq> [])"
| "py_bool (JObj kvs) = (kvs \<noteq> [])"

text \<open>\<^verbatim>\<open>v == n\<close> for an int \<open>n\<close>: numbers compare by value, everything else is unequal.\<close>

fun py_eq_int :: "json \<Rightarrow> int \<Rightarrow> bool" where
  "py_eq_int (JInt m) n = (m = n)"
| "py_eq_int (JBool b) n = ((if b then 1 else 0) = n)"
| "py_eq_int (JFloat (PyFinite r)) n = (r = of_int n)"
| "py_eq_int (JFloat PyNegZero) n = (n = 0)"
| "py_eq_int v n = False"

text \<open>
  \<^verbatim>\<open>str(v)\<close> inside an f-string: a str is itself; for every other document \<^verbatim>\<open>str\<close> is
  \<^verbatim>\<open>repr\<close>, which is a parameter of the model.
\<close>

fun py_str :: "(json \<Rightarrow> string) \<Rightarrow> json \<Rightarrow> string" where
  "py_str repr (JStr s) = s"
| "py_str repr v = repr v"

text \<open>\<^verbatim>\<open>v.get(k, dflt)\<close>: only a dict has the method.\<close>

definition dict_get :: "(string \<times> json) list \<Rightarrow> string \<Rightarrow> json \<Rightarrow> json" where
  "dict_get d k dflt = (case map_of d k of Some v \<Rightarrow> v | None \<Rightarrow> dflt)"

fun py_get :: "json \<Rightarrow> string \<Rightarrow> json \<Rightarrow> py_error + json" where
  "py_get (JObj d) k dflt = Inr (dict_get d k dflt)"
| "py_get v k dflt = Inl AttributeError"

text \<open>\<^verbatim>\<open>v[k]\<close> for a str \<open>k\<close>: a dict raises \<^verbatim>\<open>KeyError\<close> on a missing key, every other
  document raises \<^verbatim>\<open>TypeError\<close> (a list or str wants an integer index, the rest are not
  subscriptable).\<close>

fun py_getitem :: "json \<Rightarrow> string \<Rightarrow> py_error + json" where
  "py_getitem (JObj d) k = (case map_of d k of Some v \<Rightarrow> Inr v | None \<Rightarrow> Inl KeyError)"
| "py_getitem v k = Inl TypeError"

text \<open>\<^verbatim>\<open>v[k] = x\<close> for a str \<open>k\<close>: a dict keeps the position of a key it has and appends
  a new one; every other document raises \<^verbatim>\<open>TypeError\<close>.\<close>

fun py_setitem :: "json \<Rightarrow> string \<Rightarrow> json \<Rightarrow> py_error + json" where
  "py_setitem (JObj d) k x = Inr (JObj (AList.update k x d))"
| "py_setitem v k x = Inl TypeError"

text \<open>\<^verbatim>\<open>for x in v\<close>: a list yields its elements, a dict its keys, a str its characters;
  the other documents are not iterable.\<close>

fun py_iter :: "json \<Rightarrow> py_error + json list" where
  "py_iter (JArr xs) = Inr xs"
| "py_iter (JObj d) = Inr (map (\<lambda>kv. JStr (fst kv)) d)"
| "py_iter (JStr s) = Inr (map (\<lambda>c. JStr [c]) s)"
| "py_iter v = Inl TypeError"

section \<open>The agent's state\<close>

text \<open>
  \<^verbatim>\<open>self.tools\<close> is a dict from tool name to the advertised tool entry.  Each binding
  holds the canonical key, the key object as first inserted (the one iteration yields)
  and the value.
\<close>

type_synonym registry = "(pykey \<times> json \<times> json) list"

text \<open>\<^verbatim>\<open>self.tools[k] = v\<close>\<close>

definition reg_set :: "json \<Rightarrow> json \<Rightarrow> registry \<Rightarrow> py_error + registry" where
  "reg_set k v reg =
     (case key_of k of
        None \<Rightarrow> Inl TypeError
      | Some ck \<Rightarrow>
          Inr (AList.update ck ((case map_of reg ck of Some old \<Rightarrow> fst old | None \<Rightarrow> k), v) reg))"

text \<open>\<^verbatim>\<open>k in self.tools\<close> followed by \<^verbatim>\<open>self.tools[k]\<close>: \<open>Inr None\<close> when the key is absent.\<close>

definition reg_lookup :: "json \<Rightarrow> registry \<Rightarrow> py_error + json option" where
  "reg_lookup k reg =
     (case key_of k of
        None \<Rightarrow> Inl TypeError
      | Some ck \<Rightarrow> Inr (map_option snd (map_of reg ck)))"

text \<open>
  A server is the pair of pipes of a child process.  \<open>stdin\<close> collects the lines written
  to the child.  \<open>stdout\<close> is what the child emits: \<open>stdout s k\<close> is the result of the
  \<open>k\<close>-th \<^verbatim>\<open>readline()\<close> that returns a line, \<open>Some ''''\<close> is end of stream (the empty
  string \<^verbatim>\<open>readline\<close> returns there) and \<open>None\<close> a read that blocks for ever.
  \<open>consumed\<close> counts the lines read so far.  \<open>stdin_open\<close> tells whether the child still
  holds the reading end of its input pipe; once it has exited a write to the pipe raises
  \<^verbatim>\<open>BrokenPipeError\<close>.  The pipes are modelled at the level of lines: a line read is a
  str.
\<close>

record server =
  stdin :: "string list"
  stdout :: "nat \<Rightarrow> string option"
  consumed :: nat
  stdin_open :: bool

text \<open>
  The fields of \<^verbatim>\<open>Agent\<close>.  \<^verbatim>\<open>self.servers\<close> is a dict from the name of a server to its
  pipes; \<^verbatim>\<open>self.llm_client\<close>, the external decision service, takes no part in discovery
  or dispatch and is left out.
\<close>

record agent =
  servers :: "(string \<times> server) list"
  tools :: registry
  history :: "json list"

definition init_agent :: agent where
  "init_agent = \<lparr>servers = [], tools = [], history = []\<rparr>"

text \<open>\<^verbatim>\<open>start_server\<close>: the child is given by the lines it is going to emit.\<close>

definition start_server :: "string \<Rightarrow> (nat \<Rightarrow> string option) \<Rightarrow> agent \<Rightarrow> agent" where
  "start_server name out a =
     a\<lparr>servers :=
         AList.update name \<lparr>stdin = [], stdout = out, consumed = 0, stdin_open = True\<rparr>
           (servers a)\<rparr>"

text \<open>
  An event of the environment, not a statement of \<^verbatim>\<open>agent.py\<close>: the child exits and the
  reading end of its input pipe is closed.  What it wrote before stays readable.
\<close>

definition exited :: "server \<Rightarrow> server" where
  "exited s = s\<lparr>stdin_open := False\<rparr>"

definition readline :: "server \<Rightarrow> (string \<times> server) option" where
  "readline s =
     (case stdout s (consumed s) of
        None \<Rightarrow> None
      | Some l \<Rightarrow> Some (l, if l = [] then s else s\<lparr>consumed := Suc (consumed s)\<rparr>))"

text \<open>
  \<^verbatim>\<open>server['stdin'].write(l + '\n')\<close> followed by \<^verbatim>\<open>flush()\<close>: the line reaches the
  child, or the pipe is broken and the write raises.
\<close>

definition write_line :: "string \<Rightarrow> server \<Rightarrow> py_error + server" where
  "write_line l s =
     (if stdin_open s then Inr (s\<lparr>stdin := stdin s @ [l @ [CHR 0x0A]]\<rparr>)
      else Inl BrokenPipeError)"

section \<open>\<^verbatim>\<open>discover_tools\<close>\<close>

text \<open>
  \<^verbatim>\<open>adv_data.get("params", {}).get("server", {}).get("capabilities", {}).get("tools", [])\<close>
\<close>

definition server_tools_of :: "json \<Rightarrow> py_error + json" where
  "server_tools_of adv_data =
     (case py_get adv_data ''params'' (JObj []) of
        Inl e \<Rightarrow> Inl e
      | Inr p \<Rightarrow>
     (case py_get p ''server'' (JObj []) of
        Inl e \<Rightarrow> Inl e
      | Inr s \<Rightarrow>
     (case py_get s ''capabilities'' (JObj []) of
        Inl e \<Rightarrow> Inl e
      | Inr c \<Rightarrow> py_get c ''tools'' (JArr []))))"

text \<open>
  The inner loop \<^verbatim>\<open>for tool in server_tools\<close>.  The registry is returned with the
  outcome: entries stored before an exception stay stored.  The two assignments
  \<^verbatim>\<open>self.tools[tool_name] = tool\<close> and \<^verbatim>\<open>self.tools[tool_name]['server_name'] = name\<close>
  act on one dict object, so the registry ends up holding the entry with its owner set.
\<close>

fun register_tools :: "string \<Rightarrow> json list \<Rightarrow> registry \<Rightarrow> (py_error + unit) \<times> registry" where
  "register_tools name [] reg = (Inr (), reg)"
| "register_tools name (tool # rest) reg =
     (case py_getitem tool ''name'' of
        Inl e \<Rightarrow> (Inl e, reg)
      | Inr tool_name \<Rightarrow>
     (case reg_set tool_name tool reg of
        Inl e \<Rightarrow> (Inl e, reg)
      | Inr reg1 \<Rightarrow>
     (case py_setitem tool ''server_name'' (JStr name) of
        Inl e \<Rightarrow> (Inl e, reg1)
      | Inr owned \<Rightarrow>
     (case reg_set tool_name owned reg1 of
        Inl e \<Rightarrow> (Inl e, reg1)
      | Inr reg2 \<Rightarrow> register_tools name rest reg2))))"

text \<open>The body of the outer loop, for one server; the JSON parser is the parameter
  \<open>loads\<close> (\<open>None\<close> is \<^verbatim>\<open>JSONDecodeError\<close>).\<close>

definition discover_server ::
  "(string \<Rightarrow> json option) \<Rightarrow> string \<Rightarrow> server \<Rightarrow> registry
     \<Rightarrow> (server \<times> (py_error + unit) \<times> registry) option" where
  "discover_server loads name srv reg =
     (case readline srv of
        None \<Rightarrow> None
      | Some (adv_line, srv') \<Rightarrow>
          Some (srv',
            (case loads adv_line of
               None \<Rightarrow> (Inl JSONDecodeError, reg)
             | Some adv_data \<Rightarrow>
            (case server_tools_of adv_data of
               Inl e \<Rightarrow> (Inl e, reg)
             | Inr server_tools \<Rightarrow>
            (case py_iter server_tools of
               Inl e \<Rightarrow> (Inl e, reg)
             | Inr ts \<Rightarrow> register_tools name ts reg)))))"

text \<open>\<^verbatim>\<open>for name, server in self.servers.items()\<close>: an exception leaves the loop, a read
  that blocks for ever never returns (\<open>None\<close>).\<close>

fun discover_loop ::
  "(string \<Rightarrow> json option) \<Rightarrow> (string \<times> server) list \<Rightarrow> registry
     \<Rightarrow> ((py_error + unit) \<times> (string \<times> server) list \<times> registry) option" where
  "discover_loop loads [] reg = Some (Inr (), [], reg)"
| "discover_loop loads ((name, srv) # rest) reg =
     (case discover_server loads name srv reg of
        None \<Rightarrow> None
      | Some (srv', r, reg') \<Rightarrow>
          (case r of
             Inl e \<Rightarrow> Some (Inl e, (name, srv') # rest, reg')
           | Inr u \<Rightarrow>
               (case discover_loop loads rest reg' of
                  None \<Rightarrow> None
                | Some (r', rest', reg'') \<Rightarrow> Some (r', (name, srv') # rest', reg''))))"

definition discover_tools ::
  "(string \<Rightarrow> json option) \<Rightarrow> agent \<Rightarrow> ((py_error + unit) \<times> agent) option" where
  "discover_tools loads a =
     (case discover_loop loads (servers a) (tools a) of
        None \<Rightarrow> None
      | Some (r, svs, reg) \<Rightarrow> Some (r, a\<lparr>servers := svs, tools := reg\<rparr>))"

section \<open>\<^verbatim>\<open>dispatch_tool_call\<close>\<close>

definition not_found :: "(json \<Rightarrow> string) \<Rightarrow> json \<Rightarrow> json" where
  "not_found repr method =
     JObj [(''error'', JStr (''Tool '' @ [CHR 0x27] @ py_str repr method @ [CHR 0x27] @ '' not found.''))]"

definition connection_closed :: json where
  "connection_closed = JObj [(''error'', JStr ''Server connection closed.'')]"

text \<open>\<^verbatim>\<open>self.servers[server_name]\<close>: the keys of \<^verbatim>\<open>self.servers\<close> are str.\<close>

definition servers_getitem ::
  "(string \<times> server) list \<Rightarrow> json \<Rightarrow> py_error + (string \<times> server)" where
  "servers_getitem svs server_name =
     (case key_of server_name of
        None \<Rightarrow> Inl TypeError
      | Some (KStr n) \<Rightarrow> (case map_of svs n of Some s \<Rightarrow> Inr (n, s) | None \<Rightarrow> Inl KeyError)
      | Some k \<Rightarrow> Inl KeyError)"

definition build_request :: "json \<Rightarrow> json \<Rightarrow> int \<Rightarrow> json" where
  "build_request method params request_id =
     JObj [(''jsonrpc'', JStr ''2.0''), (''method'', method), (''params'', params),
           (''id'', JInt request_id)]"

text \<open>
  The loop \<^verbatim>\<open>while True\<close> that waits for the response.  It may run for ever, so it is a
  partial function: \<open>None\<close> is a call that never returns.
\<close>

partial_function (option) wait_response ::
  "(string \<Rightarrow> json option) \<Rightarrow> int \<Rightarrow> server \<Rightarrow> (server \<times> (py_error + json)) option" where
  "wait_response loads request_id srv =
     (case readline srv of
        None \<Rightarrow> None
      | Some (response_line, srv') \<Rightarrow>
          if response_line = [] then Some (srv', Inr connection_closed)
          else
            (case loads response_line of
               None \<Rightarrow> Some (srv', Inl JSONDecodeError)
             | Some response \<Rightarrow>
                 (case py_get response ''id'' JNull of
                    Inl e \<Rightarrow> Some (srv', Inl e)
                  | Inr i \<Rightarrow>
                      if py_eq_int i request_id then Some (srv', Inr response)
                      else wait_response loads request_id srv')))"

text \<open>
  \<open>now_ms\<close> is the value of \<^verbatim>\<open>int(time.time() * 1000)\<close> at the call, \<open>dumps\<close> is
  \<^verbatim>\<open>json.dumps\<close>.  The result is the agent after the call with either the exception raised
  or the dict returned.
\<close>

definition dispatch_tool_call ::
  "(json \<Rightarrow> string) \<Rightarrow> (string \<Rightarrow> json option) \<Rightarrow> (json \<Rightarrow> string) \<Rightarrow> int
     \<Rightarrow> (string \<times> json) list \<Rightarrow> agent \<Rightarrow> (agent \<times> (py_error + json)) option" where
  "dispatch_tool_call repr loads dumps now_ms tool_call a =
     (let method = dict_get tool_call ''method'' JNull in
      if \<not> py_bool method then Some (a, Inr (not_found repr method))
      else
        (case reg_lookup method (tools a) of
           Inl e \<Rightarrow> Some (a, Inl e)
         | Inr None \<Rightarrow> Some (a, Inr (not_found repr method))
         | Inr (Some tool) \<Rightarrow>
        (case py_getitem tool ''server_name'' of
           Inl e \<Rightarrow> Some (a, Inl e)
         | Inr server_name \<Rightarrow>
        (case servers_getitem (servers a) server_name of
           Inl e \<Rightarrow> Some (a, Inl e)
         | Inr (sname, srv) \<Rightarrow>
             (let request_id = now_ms;
                  request = build_request method (dict_get tool_call ''params'' (JObj [])) request_id
              in case write_line (dumps request) srv of
                   Inl e \<Rightarrow> Some (a, Inl e)
                 | Inr srv1 \<Rightarrow>
                     (case wait_response loads request_id srv1 of
                        None \<Rightarrow> None
                      | Some (srv2, r) \<Rightarrow>
                          Some (a\<lparr>servers := AList.update sname srv2 (servers a)\<rparr>, r)))))))"

section \<open>\<^verbatim>\<open>build_planner_system_prompt\<close>\<close>

text \<open>The string literals of the function, as the UTF-8 bytes of the source file.\<close>

definition planner_role_heading :: string where
  "planner_role_heading =
     ''# '' @
     [CHR 0xE8, CHR 0xA7, CHR 0x92, CHR 0xE8, CHR 0x89, CHR 0xB2, CHR 0xE4, CHR 0xB8,
      CHR 0x8E, CHR 0xE7, CHR 0x9B, CHR 0xAE, CHR 0xE6, CHR 0xA0, CHR 0x87, CHR 0x0A]"

definition planner_role :: string where
  "planner_role =
     [CHR 0xE4, CHR 0xBD, CHR 0xA0, CHR 0xE6, CHR 0x98, CHR 0xAF, CHR 0xE4, CHR 0xB8,
      CHR 0x80, CHR 0xE4, CHR 0xB8, CHR 0xAA, CHR 0xE4, CHR 0xB8, CHR 0x93, CHR 0xE5,
      CHR 0xAE, CHR 0xB6, CHR 0xE7, CHR 0xBA, CHR 0xA7, CHR 0xE7, CHR 0x9A, CHR 0x84,
      CHR 0xE5, CHR 0xAE, CHR 0x9E, CHR 0xE9, CHR 0xAA, CHR 0x8C, CHR 0xE5, CHR 0xAE,
      CHR 0xA4, CHR 0xE5, CHR 0xB7, CHR 0xA5, CHR 0xE4, CHR 0xBD, CHR 0x9C, CHR 0xE6,
      CHR 0xB5, CHR 0x81, CHR 0xE8, CHR 0xA7, CHR 0x84, CHR 0xE5, CHR 0x88, CHR 0x92,
      CHR 0xE5, CHR 0xB8, CHR 0x88, CHR 0xE3, CHR 0x80, CHR 0x82, CHR 0xE4, CHR 0xBD,
      CHR 0xA0, CHR 0xE7, CHR 0x9A, CHR 0x84, CHR 0xE4, CHR 0xBB, CHR 0xBB, CHR 0xE5,
      CHR 0x8A, CHR 0xA1, CHR 0xE6, CHR 0x98, CHR 0xAF, CHR 0xE6, CHR 0xA0, CHR 0xB9,
      CHR 0xE6, CHR 0x8D, CHR 0xAE, CHR 0xE7, CHR 0x94, CHR 0xA8, CHR 0xE6, CHR 0x88,
      CHR 0xB7, CHR 0xE7, CHR 0x9A, CHR 0x84, CHR 0xE7, CHR 0x9B, CHR 0xAE, CHR 0xE6,
      CHR 0xA0, CHR 0x87, CHR 0xEF, CHR 0xBC, CHR 0x8C, CHR 0xE5, CHR 0xB0, CHR 0x86,
      CHR 0xE4, CHR 0xB8, CHR 0x80, CHR 0xE7, CHR 0xB3, CHR 0xBB, CHR 0xE5, CHR 0x88,
      CHR 0x97, CHR 0xE5, CHR 0x8F, CHR 0xAF, CHR 0xE7, CHR 0x94, CHR 0xA8, CHR 0xE7,
      CHR 0x9A, CHR 0x84, CHR 0xE5, CHR 0x9F, CHR 0xBA, CHR 0xE7, CHR 0xA1, CHR 0x80,
      CHR 0xE5, CHR 0xB7, CHR 0xA5, CHR 0xE5, CHR 0x85, CHR 0xB7, CHR 0xEF, CHR 0xBC,
      CHR 0x8C, CHR 0xE7, CHR 0xBB, CHR 0x84, CHR 0xE5, CHR 0x90, CHR 0x88, CHR 0xE6,
      CHR 0x88, CHR 0x90, CHR 0xE4, CHR 0xB8, CHR 0x80, CHR 0xE4, CHR 0xB8, CHR 0xAA,
      CHR 0xE9, CHR 0x80, CHR 0xBB, CHR 0xE8, CHR 0xBE, CHR 0x91, CHR 0xE6, CHR 0xAD,
      CHR 0xA3, CHR 0xE7, CHR 0xA1, CHR 0xAE, CHR 0xE7, CHR 0x9A, CHR 0x84, CHR 0xE3,
      CHR 0x80, CHR 0x81, CHR 0xE6, CHR 0x9C, CHR 0x89, CHR 0xE5, CHR 0xBA, CHR 0x8F,
      CHR 0xE7, CHR 0x9A, CHR 0x84, CHR 0xE6, CHR 0xAD, CHR 0xA5, CHR 0xE9, CHR 0xAA,
      CHR 0xA4, CHR 0xE5, CHR 0x88, CHR 0x97, CHR 0xE8, CHR 0xA1, CHR 0xA8, CHR 0xE6,
      CHR 0x9D, CHR 0xA5, CHR 0xE5, CHR 0xAE, CHR 0x8C, CHR 0xE6, CHR 0x88, CHR 0x90,
      CHR 0xE4, CHR 0xBB, CHR 0xBB, CHR 0xE5, CHR 0x8A, CHR 0xA1, CHR 0xE3, CHR 0x80,
      CHR 0x82, CHR 0x0A, CHR 0x0A]"

definition planner_tools_heading :: string where
  "planner_tools_heading =
     ''# '' @
     [CHR 0xE5, CHR 0x8F, CHR 0xAF, CHR 0xE7, CHR 0x94, CHR 0xA8, CHR 0xE5, CHR 0xB7,
      CHR 0xA5, CHR 0xE5, CHR 0x85, CHR 0xB7, CHR 0x0A] @
     ''---'' @
     [CHR 0x0A]"

definition planner_tools_end :: string where
  "planner_tools_end =
     ''---'' @
     [CHR 0x0A, CHR 0x0A]"

definition planner_task_heading :: string where
  "planner_task_heading =
     ''# '' @
     [CHR 0xE4, CHR 0xBB, CHR 0xBB, CHR 0xE5, CHR 0x8A, CHR 0xA1, CHR 0x0A]"

definition planner_task :: string where
  "planner_task =
     [CHR 0xE8, CHR 0xAF, CHR 0xB7, CHR 0xE5, CHR 0x88, CHR 0x86, CHR 0xE6, CHR 0x9E,
      CHR 0x90, CHR 0xE7, CHR 0x94, CHR 0xA8, CHR 0xE6, CHR 0x88, CHR 0xB7, CHR 0xE7,
      CHR 0x9A, CHR 0x84, CHR 0xE7, CHR 0x9B, CHR 0xAE, CHR 0xE6, CHR 0xA0, CHR 0x87,
      CHR 0xEF, CHR 0xBC, CHR 0x8C, CHR 0xE5, CHR 0xB9, CHR 0xB6, CHR 0xE7, CHR 0x94,
      CHR 0x9F, CHR 0xE6, CHR 0x88, CHR 0x90, CHR 0xE4, CHR 0xB8, CHR 0x80, CHR 0xE4,
      CHR 0xB8, CHR 0xAA, CHR 0xE5, CHR 0x8C, CHR 0x85, CHR 0xE5, CHR 0x90, CHR 0xAB,
      CHR 0xE6, CHR 0x89, CHR 0x80, CHR 0xE6, CHR 0x9C, CHR 0x89, CHR 0xE5, CHR 0xBF,
      CHR 0x85, CHR 0xE8, CHR 0xA6, CHR 0x81, CHR 0xE6, CHR 0xAD, CHR 0xA5, CHR 0xE9,
      CHR 0xAA, CHR 0xA4, CHR 0xE7, CHR 0x9A, CHR 0x84, CHR 0xE5, CHR 0xAE, CHR 0x8C,
      CHR 0xE6, CHR 0x95, CHR 0xB4, CHR 0xE8, CHR 0xAE, CHR 0xA1, CHR 0xE5, CHR 0x88,
      CHR 0x92, CHR 0xE3, CHR 0x80, CHR 0x82, CHR 0xE4, CHR 0xBD, CHR 0xA0, CHR 0xE7,
      CHR 0x9A, CHR 0x84, CHR 0xE6, CHR 0x9C, CHR 0x80, CHR 0xE7, CHR 0xBB, CHR 0x88,
      CHR 0xE8, CHR 0xBE, CHR 0x93, CHR 0xE5, CHR 0x87, CHR 0xBA, CHR 0xE5, CHR 0xBF,
      CHR 0x85, CHR 0xE9, CHR 0xA1, CHR 0xBB, CHR 0xE6, CHR 0x98, CHR 0xAF, CHR 0xE4,
      CHR 0xB8, CHR 0x80, CHR 0xE4, CHR 0xB8, CHR 0xAA, CHR 0xE8, CHR 0xB0, CHR 0x83,
      CHR 0xE7, CHR 0x94, CHR 0xA8, CHR 0x60] @
     ''submit_workflow_plan'' @
     [CHR 0x60, CHR 0xE5, CHR 0xB7, CHR 0xA5, CHR 0xE5, CHR 0x85, CHR 0xB7, CHR 0xE7,
      CHR 0x9A, CHR 0x84, CHR 0xE8, CHR 0xAF, CHR 0xB7, CHR 0xE6, CHR 0xB1, CHR 0x82,
      CHR 0xEF, CHR 0xBC, CHR 0x8C, CHR 0xE5, CHR 0x85, CHR 0xB6, CHR 0xE4, CHR 0xB8,
      CHR 0xAD, CHR 0xE5, CHR 0x8C, CHR 0x85, CHR 0xE5, CHR 0x90, CHR 0xAB, CHR 0xE6,
      CHR 0x89, CHR 0x80, CHR 0xE6, CHR 0x9C, CHR 0x89, CHR 0xE6, CHR 0xAD, CHR 0xA5,
      CHR 0xE9, CHR 0xAA, CHR 0xA4, CHR 0xE3, CHR 0x80, CHR 0x82, CHR 0x0A]"

text \<open>
  The loop \<^verbatim>\<open>for name, tool in self.tools.items()\<close> appends one line for each tool to the
  prompt built so far; \<^verbatim>\<open>tool['description']\<close> raises when the entry has no description.
\<close>

fun planner_tool_lines :: "(json \<Rightarrow> string) \<Rightarrow> registry \<Rightarrow> string \<Rightarrow> py_error + string" where
  "planner_tool_lines repr [] prompt = Inr prompt"
| "planner_tool_lines repr ((k, name, tool) # rest) prompt =
     (case py_getitem tool ''description'' of
        Inl e \<Rightarrow> Inl e
      | Inr description \<Rightarrow>
          planner_tool_lines repr rest
            (prompt @ ''- '' @ py_str repr name @ '': '' @ py_str repr description @ [CHR 0x0A]))"

definition build_planner_system_prompt :: "(json \<Rightarrow> string) \<Rightarrow> agent \<Rightarrow> py_error + string" where
  "build_planner_system_prompt repr a =
     (case planner_tool_lines repr (tools a)
             (planner_role_heading @ planner_role @ planner_tools_heading) of
        Inl e \<Rightarrow> Inl e
      | Inr prompt \<Rightarrow> Inr (prompt @ planner_tools_end @ planner_task_heading @ planner_task))"

section \<open>Notions used in the statements\<close>

text \<open>
  What a line of the response stream is to a call waiting for \<open>request_id\<close>: an answer
  (it parses to an object whose \<^verbatim>\<open>id\<close> equals the request's), or an extraneous message
  (it parses to an object whose \<^verbatim>\<open>id\<close>, \<^verbatim>\<open>None\<close> when absent, differs).
\<close>

definition answers :: "(string \<Rightarrow> json option) \<Rightarrow> int \<Rightarrow> string \<Rightarrow> json option" where
  "answers loads request_id l =
     (if l = [] then None
      else case loads l of
             Some (JObj d) \<Rightarrow>
               if py_eq_int (dict_get d ''id'' JNull) request_id then Some (JObj d) else None
           | _ \<Rightarrow> None)"

definition extraneous :: "(string \<Rightarrow> json option) \<Rightarrow> int \<Rightarrow> string \<Rightarrow> bool" where
  "extraneous loads request_id l =
     (l \<noteq> [] \<and>
      (case loads l of
         Some (JObj d) \<Rightarrow> \<not> py_eq_int (dict_get d ''id'' JNull) request_id
       | _ \<Rightarrow> False))"

text \<open>
  The advertisement message: an envelope that contains a capability list, each of whose
  entries has a name.  In the messages of this agent the list is the array at
  \<^verbatim>\<open>params.server.capabilities.tools\<close>.  \<open>obj_field k v\<close> is the field \<open>k\<close> of an object,
  \<open>None\<close> for a field that is absent or a document that is no object.
\<close>

fun obj_field :: "string \<Rightarrow> json \<Rightarrow> json option" where
  "obj_field k (JObj d) = map_of d k"
| "obj_field k v = None"

definition capability_list :: "json \<Rightarrow> json list option" where
  "capability_list adv =
     (case obj_field ''params'' adv of
        None \<Rightarrow> None
      | Some p \<Rightarrow>
     (case obj_field ''server'' p of
        None \<Rightarrow> None
      | Some s \<Rightarrow>
     (case obj_field ''capabilities'' s of
        None \<Rightarrow> None
      | Some c \<Rightarrow>
     (case obj_field ''tools'' c of
        Some (JArr ts) \<Rightarrow> Some ts
      | _ \<Rightarrow> None))))"

text \<open>The registry key of an entry: that of its name; \<open>None\<close> for an entry without one.\<close>

definition tool_key :: "json \<Rightarrow> pykey option" where
  "tool_key t = (case obj_field ''name'' t of None \<Rightarrow> None | Some n \<Rightarrow> key_of n)"

text \<open>The next line of the server is a well-formed advertisement of the entries \<open>ts\<close>.\<close>

definition well_formed_advertisement ::
  "(string \<Rightarrow> json option) \<Rightarrow> server \<Rightarrow> json list \<Rightarrow> bool" where
  "well_formed_advertisement loads srv ts =
     (case stdout srv (consumed srv) of
        None \<Rightarrow> False
      | Some l \<Rightarrow>
          (case loads l of
             None \<Rightarrow> False
           | Some adv \<Rightarrow> capability_list adv = Some ts \<and> list_all (\<lambda>t. tool_key t \<noteq> None) ts))"

text \<open>An envelope lacks the capability list when a key on the path to it is absent.\<close>

fun absent_below :: "string list \<Rightarrow> json \<Rightarrow> bool" where
  "absent_below [] v = False"
| "absent_below (k # ks) (JObj d) =
     (case map_of d k of None \<Rightarrow> True | Some v \<Rightarrow> absent_below ks v)"
| "absent_below (k # ks) v = False"

definition lacks_capability_list :: "json \<Rightarrow> bool" where
  "lacks_capability_list adv = absent_below [''params'', ''server'', ''capabilities'', ''tools''] adv"

text \<open>An entry with its owning process recorded.\<close>

definition owned :: "string \<Rightarrow> json \<Rightarrow> json" where
  "owned name t =
     (case t of JObj d \<Rightarrow> JObj (AList.update ''server_name'' (JStr name) d) | _ \<Rightarrow> t)"

text \<open>The entry the registry binds to a key.\<close>

definition binding :: "registry \<Rightarrow> pykey \<Rightarrow> json option" where
  "binding reg k = map_option snd (map_of reg k)"

text \<open>The server after one \<^verbatim>\<open>readline()\<close>.\<close>

definition after_read :: "server \<Rightarrow> server" where
  "after_read srv = (case readline srv of None \<Rightarrow> srv | Some (l, srv') \<Rightarrow> srv')"

text \<open>
  The entries \<^verbatim>\<open>discover_tools\<close> iterates over for a server: what the chain of
  \<^verbatim>\<open>get\<close> calls extracts from its next line (nothing when the line is rejected).
\<close>

definition entries_read :: "(string \<Rightarrow> json option) \<Rightarrow> server \<Rightarrow> json list" where
  "entries_read loads srv =
     (case stdout srv (consumed srv) of
        None \<Rightarrow> []
      | Some l \<Rightarrow>
     (case loads l of
        None \<Rightarrow> []
      | Some adv \<Rightarrow>
     (case server_tools_of adv of
        Inl e \<Rightarrow> []
      | Inr v \<Rightarrow>
     (case py_iter v of
        Inl e \<Rightarrow> []
      | Inr ts \<Rightarrow> ts))))"

text \<open>The effect on the registry of one round of the inner loop that does not raise.\<close>

definition enter :: "string \<Rightarrow> json \<Rightarrow> registry \<Rightarrow> registry" where
  "enter name t reg =
     (case obj_field ''name'' t of
        None \<Rightarrow> reg
      | Some n \<Rightarrow>
          (case key_of n of
             None \<Rightarrow> reg
           | Some k \<Rightarrow>
               AList.update k ((case map_of reg k of Some old \<Rightarrow> fst old | None \<Rightarrow> n), owned name t) reg))"

text \<open>The registry after a run of the outer loop in which no round raises.\<close>

definition discover_all ::
  "(string \<Rightarrow> json option) \<Rightarrow> (string \<times> server) list \<Rightarrow> registry \<Rightarrow> registry" where
  "discover_all loads svs reg = fold (\<lambda>(n, s). fold (enter n) (entries_read loads s)) svs reg"

text \<open>
  What a registry shows of its procedures to the planner: the name of each (the key, as
  iteration yields it) and its description (or the exception that reading it raises), in
  the order of registration.
\<close>

definition exposed :: "registry \<Rightarrow> (json \<times> (py_error + json)) list" where
  "exposed reg = map (\<lambda>(k, name, tool). (name, py_getitem tool ''description'')) reg"

text \<open>
  Every entry of the registry names an owning process, and that process is one of the
  servers: the state in which \<^verbatim>\<open>self.tools[method]['server_name']\<close> and
  \<^verbatim>\<open>self.servers[server_name]\<close> cannot raise.
\<close>

definition owners_known :: "string set \<Rightarrow> registry \<Rightarrow> bool" where
  "owners_known names reg =
     (\<forall>(k, name, tool)\<in>set reg. \<exists>sn\<in>names. py_getitem tool ''server_name'' = Inr (JStr sn))"

definition registry_owned :: "agent \<Rightarrow> bool" where
  "registry_owned a = owners_known (fst ` set (servers a)) (tools a)"

text \<open>The server after the line \<open>l\<close> has been written to it.\<close>

definition sent :: "string \<Rightarrow> server \<Rightarrow> server" where
  "sent l srv = srv\<lparr>stdin := stdin srv @ [l @ [CHR 0x0A]]\<rparr>"

text \<open>The server after \<open>k\<close> more lines have been read from it.\<close>

definition skipped :: "nat \<Rightarrow> server \<Rightarrow> server" where
  "skipped k srv = srv\<lparr>consumed := consumed srv + k\<rparr>"

section \<open>A laboratory for the examples\<close>

text \<open>A child that writes the lines \<open>ls\<close> and closes its output.\<close>

definition emits :: "string list \<Rightarrow> nat \<Rightarrow> string option" where
  "emits ls k = (if k < length ls then Some (ls ! k) else Some [])"

definition line_adv :: string where
  \<open>line_adv = ''{"params": {"server": {"capabilities": {"tools": [{"name": "suggest", "description": "next point", "parameters": {}}]}}}}'' @ [CHR 0x0A]\<close>

definition suggest_entry :: "(string \<times> json) list" where
  "suggest_entry =
     [(''name'', JStr ''suggest''), (''description'', JStr ''next point''), (''parameters'', JObj [])]"

definition doc_adv :: json where
  "doc_adv = JObj [(''params'', JObj [(''server'', JObj [(''capabilities'',
       JObj [(''tools'', JArr [JObj suggest_entry])])])])]"

definition line_adv_anon :: string where
  \<open>line_adv_anon = ''{"params": {"server": {"capabilities": {"tools": [{"name": "", "description": "unnamed"}]}}}}'' @ [CHR 0x0A]\<close>

definition anon_entry :: "(string \<times> json) list" where
  "anon_entry = [(''name'', JStr []), (''description'', JStr ''unnamed'')]"

definition doc_adv_anon :: json where
  "doc_adv_anon = JObj [(''params'', JObj [(''server'', JObj [(''capabilities'',
       JObj [(''tools'', JArr [JObj anon_entry])])])])]"

definition line_stale :: string where
  \<open>line_stale = ''{"id": 1, "result": "stale"}'' @ [CHR 0x0A]\<close>

definition doc_stale :: json where
  "doc_stale = JObj [(''id'', JInt 1), (''result'', JStr ''stale'')]"

definition line_answer :: string where
  \<open>line_answer = ''{"id": 7, "result": {"x": 3}}'' @ [CHR 0x0A]\<close>

definition doc_answer :: json where
  "doc_answer = JObj [(''id'', JInt 7), (''result'', JObj [(''x'', JInt 3)])]"

definition line_cut :: string where
  \<open>line_cut = ''{"id": 7, "result": '' @ [CHR 0x0A]\<close>

definition line_adv_robot :: string where
  \<open>line_adv_robot = ''{"params": {"server": {"capabilities": {"tools": [{"name": "suggest", "description": "robot arm"}, {"name": "observe", "description": "read sensor"}]}}}}'' @ [CHR 0x0A]\<close>

definition robot_suggest :: "(string \<times> json) list" where
  "robot_suggest = [(''name'', JStr ''suggest''), (''description'', JStr ''robot arm'')]"

definition robot_observe :: "(string \<times> json) list" where
  "robot_observe = [(''name'', JStr ''observe''), (''description'', JStr ''read sensor'')]"

definition doc_adv_robot :: json where
  "doc_adv_robot = JObj [(''params'', JObj [(''server'', JObj [(''capabilities'',
       JObj [(''tools'', JArr [JObj robot_suggest, JObj robot_observe])])])])]"

definition line_hello :: string where
  \<open>line_hello = ''{"jsonrpc": "2.0", "method": "hello"}'' @ [CHR 0x0A]\<close>

definition doc_hello :: json where
  "doc_hello = JObj [(''jsonrpc'', JStr ''2.0''), (''method'', JStr ''hello'')]"

text \<open>A parser that agrees with \<^verbatim>\<open>json.loads\<close> on the lines above and is used on no other.\<close>

definition demo_loads :: "string \<Rightarrow> json option" where
  "demo_loads =
     map_of [(line_adv, doc_adv), (line_adv_anon, doc_adv_anon), (line_adv_robot, doc_adv_robot),
             (line_hello, doc_hello), (line_stale, doc_stale), (line_answer, doc_answer)]"

definition demo_repr :: "json \<Rightarrow> string" where
  "demo_repr v = ''?''"

definition suggest_call :: "(string \<times> json) list" where
  "suggest_call = [(''method'', JStr ''suggest''), (''params'', JObj [])]"

definition line_request :: string where
  \<open>line_request = ''{"jsonrpc": "2.0", "method": "suggest", "params": {}, "id": 7}''\<close>

definition demo_dumps :: "json \<Rightarrow> string" where
  "demo_dumps v = (if v = build_request (JStr ''suggest'') (JObj []) 7 then line_request else [])"

definition bo_agent :: "string list \<Rightarrow> agent" where
  "bo_agent ls = start_server ''BO_Server'' (emits (line_adv # ls)) init_agent"

definition bo_server :: "string list \<Rightarrow> string list \<Rightarrow> nat \<Rightarrow> server" where
  "bo_server ws ls n =
     \<lparr>stdin = ws, stdout = emits (line_adv # ls), consumed = n, stdin_open = True\<rparr>"

definition bo_tool :: json where
  "bo_tool = JObj (suggest_entry @ [(''server_name'', JStr ''BO_Server'')])"

definition bo_ready :: "string list \<Rightarrow> agent" where
  "bo_ready ls =
     \<lparr>servers = [(''BO_Server'', bo_server [] ls 1)],
      tools = [(KStr ''suggest'', JStr ''suggest'', bo_tool)],
      history = []\<rparr>"

definition anon_agent :: "string list \<Rightarrow> agent" where
  "anon_agent ls = start_server ''Anon'' (emits (line_adv_anon # ls)) init_agent"

definition anon_tool :: json where
  "anon_tool = JObj (anon_entry @ [(''server_name'', JStr ''Anon'')])"

definition anon_ready :: "string list \<Rightarrow> agent" where
  "anon_ready ls =
     \<lparr>servers = [(''Anon'', \<lparr>stdin = [], stdout = emits (line_adv_anon # ls), consumed = 1,
                            stdin_open = True\<rparr>)],
      tools = [(KStr [], JStr [], anon_tool)],
      history = []\<rparr>"

text \<open>A server as \<^verbatim>\<open>start_server\<close> leaves it, after \<open>n\<close> lines were read.\<close>

definition child :: "string list \<Rightarrow> nat \<Rightarrow> server" where
  "child ls n = \<lparr>stdin = [], stdout = emits ls, consumed = n, stdin_open = True\<rparr>"

text \<open>The agent after discovery, when the child has exited since.\<close>

definition bo_dead :: agent where
  "bo_dead =
     \<lparr>servers = [(''BO_Server'', exited (bo_server [] [] 1))],
      tools = [(KStr ''suggest'', JStr ''suggest'', bo_tool)],
      history = []\<rparr>"

definition two_agents :: agent where
  "two_agents =
     start_server ''Robot'' (emits [line_adv_robot])
       (start_server ''BO_Server'' (emits [line_adv]) init_agent)"

definition two_ready :: agent where
  "two_ready =
     \<lparr>servers = [(''BO_Server'', child [line_adv] 1), (''Robot'', child [line_adv_robot] 1)],
      tools = [(KStr ''suggest'', JStr ''suggest'', owned ''Robot'' (JObj robot_suggest)),
               (KStr ''observe'', JStr ''observe'', owned ''Robot'' (JObj robot_observe))],
      history = []\<rparr>"

definition broken_agents :: agent where
  "broken_agents =
     start_server ''BO_Server'' (emits [line_adv])
       (start_server ''Broken'' (emits [line_cut]) init_agent)"

definition chatty_agent :: agent where
  "chatty_agent = start_server ''Chatty'' (emits [line_hello]) init_agent"

text \<open>Two registries with the same names and descriptions and different other fields.\<close>

definition schema_plain :: registry where
  "schema_plain =
     [(KStr ''suggest'', JStr ''suggest'',
       JObj [(''name'', JStr ''suggest''), (''description'', JStr ''next point''),
             (''parameters'', JObj []), (''server_name'', JStr ''BO_Server'')]),
      (KStr ''observe'', JStr ''observe'',
       JObj [(''name'', JStr ''observe''), (''description'', JStr ''read sensor''),
             (''server_name'', JStr ''Robot'')])]"

definition schema_rich :: registry where
  "schema_rich =
     [(KStr ''suggest'', JStr ''suggest'',
       JObj [(''name'', JStr ''suggest''), (''description'', JStr ''next point''),
             (''parameters'', JObj [(''type'', JStr ''object''),
                (''properties'', JObj [(''n'', JObj [(''type'', JStr ''integer'')])])]),
             (''server_name'', JStr ''Other'')]),
      (KStr ''observe'', JStr ''observe'',
       JObj [(''description'', JStr ''read sensor''), (''secret'', JInt 42),
             (''server_name'', JStr ''Robot'')])]"

section \<open>The examples evaluated\<close>

lemma demo_loads_simps:
  "demo_loads line_adv = Some doc_adv"
  "demo_loads line_adv_anon = Some doc_adv_anon"
  "demo_loads line_adv_robot = Some doc_adv_robot"
  "demo_loads line_hello = Some doc_hello"
  "demo_loads line_stale = Some doc_stale"
  "demo_loads line_answer = Some doc_answer"
  "demo_loads line_cut = None"
  "demo_loads [] = None"
  by (simp_all add: demo_loads_def line_adv_def line_adv_anon_def line_adv_robot_def
      line_hello_def line_stale_def line_answer_def line_cut_def)

lemma demo_lines_nonempty:
  "line_adv \<noteq> []" "line_adv_anon \<noteq> []" "line_adv_robot \<noteq> []" "line_hello \<noteq> []"
  "line_stale \<noteq> []" "line_answer \<noteq> []" "line_cut \<noteq> []"
  by (simp_all add: line_adv_def line_adv_anon_def line_adv_robot_def line_hello_def
      line_stale_def line_answer_def line_cut_def)

lemma bo_discovered:
  "discover_tools demo_loads (bo_agent ls) = Some (Inr (), bo_ready ls)"
  by (simp add: discover_tools_def bo_agent_def start_server_def init_agent_def discover_server_def
      readline_def emits_def demo_loads_simps demo_lines_nonempty server_tools_of_def doc_adv_def
      dict_get_def suggest_entry_def reg_set_def bo_ready_def bo_server_def bo_tool_def)

lemma anon_discovered:
  "discover_tools demo_loads (anon_agent ls) = Some (Inr (), anon_ready ls)"
  by (simp add: discover_tools_def anon_agent_def start_server_def init_agent_def
      discover_server_def readline_def emits_def demo_loads_simps demo_lines_nonempty
      server_tools_of_def doc_adv_anon_def dict_get_def anon_entry_def reg_set_def anon_ready_def
      anon_tool_def)

lemma bo_ready_suggest:
  "py_bool (dict_get suggest_call ''method'' JNull)"
  "reg_lookup (dict_get suggest_call ''method'' JNull) (tools (bo_ready ls)) = Inr (Some bo_tool)"
  "py_getitem bo_tool ''server_name'' = Inr (JStr ''BO_Server'')"
  "servers_getitem (servers (bo_ready ls)) (JStr ''BO_Server'') =
     Inr (''BO_Server'', bo_server [] ls 1)"
  "stdin_open (bo_server [] ls 1)"
  by (simp_all add: suggest_call_def dict_get_def bo_ready_def reg_lookup_def bo_tool_def
      suggest_entry_def servers_getitem_def bo_server_def)

lemma bo_server_simps:
  "stdout (bo_server ws ls n) = emits (line_adv # ls)"
  "consumed (bo_server ws ls n) = n"
  "skipped k (bo_server ws ls n) = bo_server ws ls (n + k)"
  "sent l (bo_server ws ls n) = bo_server (ws @ [l @ [CHR 0x0A]]) ls n"
  "stdin_open (bo_server ws ls n)"
  by (simp_all add: bo_server_def skipped_def sent_def)

lemma demo_request:
  "demo_dumps (build_request (dict_get suggest_call ''method'' JNull)
     (dict_get suggest_call ''params'' (JObj [])) 7) = line_request"
  by (simp add: demo_dumps_def suggest_call_def dict_get_def)

lemma demo_line_kinds:
  "extraneous demo_loads 7 line_stale"
  "answers demo_loads 7 line_answer = Some doc_answer"
  by (simp_all add: extraneous_def answers_def demo_loads_simps demo_lines_nonempty doc_stale_def
      doc_answer_def dict_get_def)

section \<open>Discovery\<close>

lemma register_tools_keyed:
  assumes "tool_key t = Some k"
  shows "register_tools name (t # rest) reg = register_tools name rest (enter name t reg)"
proof -
  from assms obtain d n where t: "t = JObj d" "map_of d ''name'' = Some n" "key_of n = Some k"
    by (cases t) (auto simp: tool_key_def split: option.splits)
  then show ?thesis
    by (simp add: reg_set_def enter_def owned_def AList.update_conv' AList.update_last)
qed

lemma register_tools_all_keyed:
  "list_all (\<lambda>t. tool_key t \<noteq> None) ts \<Longrightarrow>
   register_tools name ts reg = (Inr (), fold (enter name) ts reg)"
proof (induction ts arbitrary: reg)
  case Nil
  then show ?case by simp
next
  case (Cons t ts)
  then obtain k where "tool_key t = Some k" by auto
  with Cons show ?case by (simp add: register_tools_keyed del: register_tools.simps)
qed

lemma register_tools_unkeyed:
  assumes "tool_key t = None"
  shows "\<exists>e. register_tools name (t # rest) reg = (Inl e, reg)"
  using assms
  by (cases t) (auto simp: tool_key_def reg_set_def split: option.splits)

lemma register_tools_normal:
  "register_tools name ts reg = (Inr (), reg') \<Longrightarrow>
   list_all (\<lambda>t. tool_key t \<noteq> None) ts \<and> reg' = fold (enter name) ts reg"
proof (induction ts arbitrary: reg)
  case Nil
  then show ?case by simp
next
  case (Cons t ts)
  show ?case
  proof (cases "tool_key t")
    case None
    from register_tools_unkeyed [OF None, of name ts reg] Cons.prems show ?thesis by auto
  next
    case (Some k)
    with Cons.prems have "register_tools name ts (enter name t reg) = (Inr (), reg')"
      by (simp add: register_tools_keyed del: register_tools.simps)
    from Cons.IH [OF this] Some show ?thesis by simp
  qed
qed

lemma capability_list_server_tools:
  "capability_list adv = Some ts \<Longrightarrow> server_tools_of adv = Inr (JArr ts)"
  by (cases adv)
     (auto simp: capability_list_def server_tools_of_def dict_get_def
           split: option.splits json.splits elim!: obj_field.elims)

lemma readline_after_read:
  "stdout srv (consumed srv) = Some l \<Longrightarrow> readline srv = Some (l, after_read srv)"
  by (simp add: readline_def after_read_def)

lemma discover_server_well_formed:
  assumes "well_formed_advertisement loads srv ts"
  shows "discover_server loads name srv reg =
           Some (after_read srv, Inr (), fold (enter name) ts reg)"
  using assms
  by (auto simp: well_formed_advertisement_def discover_server_def readline_after_read
        capability_list_server_tools register_tools_all_keyed split: option.splits)

lemma discover_server_normal:
  assumes "discover_server loads name srv reg = Some (srv', Inr (), reg')"
  shows "srv' = after_read srv \<and> list_all (\<lambda>t. tool_key t \<noteq> None) (entries_read loads srv) \<and>
         reg' = fold (enter name) (entries_read loads srv) reg"
  using assms
  by (auto simp: discover_server_def entries_read_def readline_def after_read_def
        split: option.splits sum.splits if_splits dest!: register_tools_normal)

lemma well_formed_entries_read:
  "well_formed_advertisement loads srv ts \<Longrightarrow> entries_read loads srv = ts"
  by (auto simp: well_formed_advertisement_def entries_read_def capability_list_server_tools
        split: option.splits)

lemma discover_loop_append:
  "discover_loop loads (xs @ ys) reg =
     (case discover_loop loads xs reg of
        None \<Rightarrow> None
      | Some (r, xs', reg') \<Rightarrow>
          (case r of
             Inl e \<Rightarrow> Some (Inl e, xs' @ ys, reg')
           | Inr u \<Rightarrow>
               (case discover_loop loads ys reg' of
                  None \<Rightarrow> None
                | Some (r', ys', reg'') \<Rightarrow> Some (r', xs' @ ys', reg''))))"
proof (induction xs arbitrary: reg)
  case Nil
  then show ?case by (simp split: option.splits prod.splits)
next
  case (Cons x xs)
  obtain n s where x: "x = (n, s)" by (cases x)
  show ?case
    by (auto simp: x Cons.IH split: option.splits prod.splits sum.splits)
qed

text \<open>The loop from a server that is reached.\<close>

lemma discover_loop_reached:
  assumes "discover_loop loads pre reg = Some (Inr (), pre', reg1)"
    and "discover_server loads name srv reg1 = Some (srv', r, reg2)"
  shows "discover_loop loads (pre @ (name, srv) # post) reg =
     (case r of
        Inl e \<Rightarrow> Some (Inl e, pre' @ (name, srv') # post, reg2)
      | Inr u \<Rightarrow>
          (case discover_loop loads post reg2 of
             None \<Rightarrow> None
           | Some (r', post', reg3) \<Rightarrow> Some (r', pre' @ (name, srv') # post', reg3)))"
  using assms
  by (simp add: discover_loop_append split: option.splits prod.splits sum.splits)

lemma map_of_enter_other:
  "tool_key t \<noteq> Some k \<Longrightarrow> map_of (enter name t reg) k = map_of reg k"
  by (auto simp: enter_def tool_key_def AList.update_conv' split: option.splits)

lemma binding_enter:
  "binding (enter name t reg) k =
     (if tool_key t = Some k then Some (owned name t) else binding reg k)"
  by (auto simp: binding_def enter_def tool_key_def AList.update_conv' split: option.splits)

lemma keys_enter:
  "fst ` set (enter name t reg) = fst ` set reg \<union> set_option (tool_key t)"
proof -
  have "fst ` set (enter name t reg) = dom (map_of (enter name t reg))"
    by (simp add: dom_map_of_conv_image_fst)
  also have "\<dots> = dom (map_of reg) \<union> set_option (tool_key t)"
    by (auto simp: enter_def tool_key_def AList.update_conv' split: option.splits)
  finally show ?thesis by (simp add: dom_map_of_conv_image_fst)
qed

lemma distinct_enter:
  "distinct (map fst reg) \<Longrightarrow> distinct (map fst (enter name t reg))"
  by (auto simp: enter_def AList.distinct_update split: option.splits)

lemma map_of_fold_enter_other:
  "\<forall>t\<in>set ts. tool_key t \<noteq> Some k \<Longrightarrow> map_of (fold (enter name) ts reg) k = map_of reg k"
  by (induction ts arbitrary: reg) (simp_all add: map_of_enter_other)

lemma binding_fold_enter:
  "binding (fold (enter name) ts reg) k =
     (if \<exists>t\<in>set ts. tool_key t = Some k
      then Some (owned name (last (filter (\<lambda>t. tool_key t = Some k) ts)))
      else binding reg k)"
proof (induction ts rule: rev_induct)
  case Nil
  then show ?case by simp
next
  case (snoc t ts)
  then show ?case by (auto simp: binding_enter)
qed

lemma keys_fold_enter:
  "fst ` set (fold (enter name) ts reg) = fst ` set reg \<union> {k. \<exists>t\<in>set ts. tool_key t = Some k}"
proof (induction ts rule: rev_induct)
  case Nil
  then show ?case by simp
next
  case (snoc t ts)
  then show ?case by (auto simp: keys_enter)
qed

lemma distinct_fold_enter:
  "distinct (map fst reg) \<Longrightarrow> distinct (map fst (fold (enter name) ts reg))"
  by (induction ts arbitrary: reg) (simp_all add: distinct_enter)

lemma discover_tools_reached:
  assumes "servers a = pre @ (name, srv) # post"
    and "discover_loop loads pre (tools a) = Some (Inr (), pre', reg1)"
    and "discover_server loads name srv reg1 = Some (srv', r, reg2)"
  shows "discover_tools loads a =
     (case r of
        Inl e \<Rightarrow> Some (Inl e, a\<lparr>servers := pre' @ (name, srv') # post, tools := reg2\<rparr>)
      | Inr u \<Rightarrow>
          (case discover_loop loads post reg2 of
             None \<Rightarrow> None
           | Some (r', post', reg3) \<Rightarrow>
               Some (r', a\<lparr>servers := pre' @ (name, srv') # post', tools := reg3\<rparr>)))"
  using discover_loop_reached [OF assms(2,3), of post]
  by (simp add: discover_tools_def assms(1) split: sum.splits option.splits)

text \<open>
  C2 (as amended).  A process whose first output line is a well-formed advertisement and
  which the loop of \<^verbatim>\<open>discover_tools\<close> reaches (the rounds of the processes before it
  returned without an exception, leaving the registry \<open>reg1\<close>): its round leaves a registry
  \<open>reg2\<close> from which the loop goes on to the remaining processes, and
  \<^item> the keys of \<open>reg2\<close> are those of \<open>reg1\<close> and the advertised names, no other;
  \<^item> every advertised name is bound to its advertised entry (the last one, should the
    advertisement repeat the name) with the name of the process recorded as its owner;
  \<^item> every other name is bound as it was.
\<close>

theorem discover_registers_advertised:
  assumes "servers a = pre @ (name, srv) # post"
    and "discover_loop loads pre (tools a) = Some (Inr (), pre', reg1)"
    and "well_formed_advertisement loads srv ts"
  shows "\<exists>reg2.
      discover_tools loads a =
        (case discover_loop loads post reg2 of
           None \<Rightarrow> None
         | Some (r, post', reg3) \<Rightarrow>
             Some (r, a\<lparr>servers := pre' @ (name, after_read srv) # post', tools := reg3\<rparr>)) \<and>
      fst ` set reg2 = fst ` set reg1 \<union> {k. \<exists>t\<in>set ts. tool_key t = Some k} \<and>
      (\<forall>k. (\<exists>t\<in>set ts. tool_key t = Some k) \<longrightarrow>
           binding reg2 k = Some (owned name (last (filter (\<lambda>t. tool_key t = Some k) ts)))) \<and>
      (\<forall>k. (\<forall>t\<in>set ts. tool_key t \<noteq> Some k) \<longrightarrow> map_of reg2 k = map_of reg1 k)"
proof (intro exI conjI)
  show "discover_tools loads a =
        (case discover_loop loads post (fold (enter name) ts reg1) of
           None \<Rightarrow> None
         | Some (r, post', reg3) \<Rightarrow>
             Some (r, a\<lparr>servers := pre' @ (name, after_read srv) # post', tools := reg3\<rparr>))"
    using discover_tools_reached [OF assms(1,2) discover_server_well_formed [OF assms(3)]]
    by simp
  show "fst ` set (fold (enter name) ts reg1) =
          fst ` set reg1 \<union> {k. \<exists>t\<in>set ts. tool_key t = Some k}"
    by (rule keys_fold_enter)
  show "\<forall>k. (\<exists>t\<in>set ts. tool_key t = Some k) \<longrightarrow>
           binding (fold (enter name) ts reg1) k =
             Some (owned name (last (filter (\<lambda>t. tool_key t = Some k) ts)))"
    by (simp add: binding_fold_enter)
  show "\<forall>k. (\<forall>t\<in>set ts. tool_key t \<noteq> Some k) \<longrightarrow>
           map_of (fold (enter name) ts reg1) k = map_of reg1 k"
    by (simp add: map_of_fold_enter_other)
qed

lemma lacks_server_tools:
  "lacks_capability_list adv \<Longrightarrow> server_tools_of adv = Inr (JArr [])"
  by (cases adv)
     (auto simp: lacks_capability_list_def server_tools_of_def dict_get_def
           split: option.splits json.splits elim!: absent_below.elims)

lemma server_tools_array:
  "server_tools_of adv = Inr (JArr ts) \<Longrightarrow> ts = [] \<or> capability_list adv = Some ts"
  by (cases adv)
     (auto simp: capability_list_def server_tools_of_def dict_get_def
           split: option.splits json.splits sum.splits elim!: py_get.elims)

lemma register_tools_strings:
  "\<forall>t\<in>set ts. \<exists>s. t = JStr s \<Longrightarrow> \<exists>r. register_tools name ts reg = (r, reg)"
  by (cases ts) auto

lemma register_without_list:
  assumes "capability_list adv = None"
  shows "\<exists>r. (case server_tools_of adv of
               Inl e \<Rightarrow> (Inl e, reg)
             | Inr server_tools \<Rightarrow>
            (case py_iter server_tools of
               Inl e \<Rightarrow> (Inl e, reg)
             | Inr ts \<Rightarrow> register_tools name ts reg)) = (r, reg)"
proof (cases "server_tools_of adv")
  case (Inl e)
  then show ?thesis by simp
next
  case (Inr v)
  show ?thesis
  proof (cases v)
    case (JArr ts)
    with Inr assms server_tools_array [of adv ts] have "ts = []" by auto
    with Inr JArr show ?thesis by simp
  next
    case (JObj d)
    with Inr register_tools_strings [of "map (\<lambda>kv. JStr (fst kv)) d" name reg]
    show ?thesis by auto
  next
    case (JStr s)
    with Inr register_tools_strings [of "map (\<lambda>c. JStr [c]) s" name reg]
    show ?thesis by auto
  qed (use Inr in simp_all)
qed

lemma discover_server_without_list:
  assumes "stdout srv (consumed srv) = Some l"
    and "loads l = None \<or> (\<exists>adv. loads l = Some adv \<and> capability_list adv = None)"
  shows "\<exists>r. discover_server loads name srv reg = Some (after_read srv, r, reg) \<and>
             (loads l = None \<longrightarrow> r = Inl JSONDecodeError) \<and>
             (\<forall>adv. loads l = Some adv \<and> lacks_capability_list adv \<longrightarrow> r = Inr ())"
proof (cases "loads l")
  case None
  then show ?thesis
    by (simp add: discover_server_def readline_after_read [OF assms(1)])
next
  case (Some adv)
  with assms(2) have nolist: "capability_list adv = None" by simp
  from register_without_list [OF nolist, of reg name] obtain r where
    r: "(case server_tools_of adv of
               Inl e \<Rightarrow> (Inl e, reg)
             | Inr server_tools \<Rightarrow>
            (case py_iter server_tools of
               Inl e \<Rightarrow> (Inl e, reg)
             | Inr ts \<Rightarrow> register_tools name ts reg)) = (r, reg)" ..
  have "lacks_capability_list adv \<Longrightarrow> r = Inr ()"
    using r by (simp add: lacks_server_tools)
  with r Some show ?thesis
    by (simp add: discover_server_def readline_after_read [OF assms(1)])
qed

text \<open>
  C3 (as amended).  A process that the loop reaches and whose first output line fails to
  parse, or parses to an envelope without a capability list: its round registers nothing
  (the registry stays \<open>reg1\<close>, as the processes before it left it).  The outcome \<open>r\<close> of the
  round is the exception \<^verbatim>\<open>JSONDecodeError\<close> when the line fails to parse, which ends
  \<^verbatim>\<open>discover_tools\<close>; it is a normal return when a key on the path to the capability list
  is absent, and the loop goes on to the remaining processes.
\<close>

theorem discover_without_capability_list:
  assumes "servers a = pre @ (name, srv) # post"
    and "discover_loop loads pre (tools a) = Some (Inr (), pre', reg1)"
    and "stdout srv (consumed srv) = Some l"
    and "loads l = None \<or> (\<exists>adv. loads l = Some adv \<and> capability_list adv = None)"
  shows "\<exists>r.
      discover_tools loads a =
        (case r of
           Inl e \<Rightarrow>
             Some (Inl e, a\<lparr>servers := pre' @ (name, after_read srv) # post, tools := reg1\<rparr>)
         | Inr u \<Rightarrow>
             (case discover_loop loads post reg1 of
                None \<Rightarrow> None
              | Some (r', post', reg3) \<Rightarrow>
                  Some (r', a\<lparr>servers := pre' @ (name, after_read srv) # post', tools := reg3\<rparr>))) \<and>
      (loads l = None \<longrightarrow> r = Inl JSONDecodeError) \<and>
      (\<forall>adv. loads l = Some adv \<and> lacks_capability_list adv \<longrightarrow> r = Inr ())"
proof -
  from discover_server_without_list [where loads = loads and name = name and reg = reg1,
      OF assms(3,4)] obtain r where
    r: "discover_server loads name srv reg1 = Some (after_read srv, r, reg1)"
       "loads l = None \<longrightarrow> r = Inl JSONDecodeError"
       "\<forall>adv. loads l = Some adv \<and> lacks_capability_list adv \<longrightarrow> r = Inr ()"
    by auto
  from discover_tools_reached [OF assms(1,2) r(1)] r(2,3) show ?thesis
    by (intro exI [of _ r]) simp
qed

lemma discover_loop_normal:
  "discover_loop loads svs reg = Some (Inr (), svs', reg') \<Longrightarrow> reg' = discover_all loads svs reg"
proof (induction svs arbitrary: reg svs')
  case Nil
  then show ?case by (simp add: discover_all_def)
next
  case (Cons x svs)
  obtain n s where x: "x = (n, s)" by (cases x)
  from Cons.prems obtain s' reg1 rest' where
    step: "discover_server loads n s reg = Some (s', Inr (), reg1)"
    and rest: "discover_loop loads svs reg1 = Some (Inr (), rest', reg')"
    by (auto simp: x split: option.splits sum.splits prod.splits)
  from discover_server_normal [OF step] Cons.IH [OF rest] show ?case
    by (simp add: x discover_all_def)
qed

lemma map_of_discover_all_other:
  "\<forall>(n, s)\<in>set svs. \<forall>t\<in>set (entries_read loads s). tool_key t \<noteq> Some k \<Longrightarrow>
   map_of (discover_all loads svs reg) k = map_of reg k"
  unfolding discover_all_def
  by (induction svs arbitrary: reg) (auto simp: map_of_fold_enter_other)

lemma distinct_discover_all:
  "distinct (map fst reg) \<Longrightarrow> distinct (map fst (discover_all loads svs reg))"
  unfolding discover_all_def
  by (induction svs arbitrary: reg) (auto simp: distinct_fold_enter)

lemma discover_all_append:
  "discover_all loads (xs @ (n, s) # ys) reg =
     discover_all loads ys (fold (enter n) (entries_read loads s) (discover_all loads xs reg))"
  by (simp add: discover_all_def)

lemma owned_differs:
  assumes "tool_key t \<noteq> None" and "tool_key t' \<noteq> None" and "n \<noteq> n'"
  shows "owned n t \<noteq> owned n' t'"
proof -
  from assms(1) obtain d where t: "t = JObj d"
    by (cases t) (auto simp: tool_key_def)
  from assms(2) obtain d' where t': "t' = JObj d'"
    by (cases t') (auto simp: tool_key_def)
  have "map_of (AList.update ''server_name'' (JStr n) d) ''server_name'' \<noteq>
        map_of (AList.update ''server_name'' (JStr n') d') ''server_name''"
    using assms(3) by (simp add: AList.update_conv')
  then show ?thesis by (auto simp: owned_def t t')
qed

text \<open>
  C8.  Two processes \<open>ni\<close> and \<open>nj\<close>, the second started later, both advertise an entry
  with the key \<open>k\<close>, and \<open>nj\<close> is the last to register it (\<open>tj\<close> is its last entry of that
  name, no process after it advertises the name).  When \<^verbatim>\<open>discover_tools\<close> has completed,
  the registry binds \<open>k\<close> to the entry \<open>tj\<close> owned by \<open>nj\<close>, which is not the entry of \<open>ni\<close>;
  and the registry, a dict before, has every key once.
\<close>

theorem discover_last_registered_wins:
  assumes "discover_tools loads a = Some (Inr (), a')"
    and "servers a = pre @ (ni, si) # mid @ (nj, sj) # post"
    and "ti \<in> set (entries_read loads si)" and "tool_key ti = Some k"
    and "entries_read loads sj = before @ tj # after" and "tool_key tj = Some k"
    and "\<forall>t\<in>set after. tool_key t \<noteq> Some k"
    and "\<forall>(n, s)\<in>set post. \<forall>t\<in>set (entries_read loads s). tool_key t \<noteq> Some k"
    and "distinct (map fst (servers a))"
    and "distinct (map fst (tools a))"
  shows "binding (tools a') k = Some (owned nj tj) \<and>
         owned nj tj \<noteq> owned ni ti \<and>
         distinct (map fst (tools a'))"
proof -
  from assms(1) obtain svs' where
    "discover_loop loads (servers a) (tools a) = Some (Inr (), svs', tools a')"
    by (auto simp: discover_tools_def split: option.splits prod.splits)
  then have reg': "tools a' = discover_all loads (servers a) (tools a)"
    by (rule discover_loop_normal)
  let ?R = "discover_all loads (pre @ (ni, si) # mid) (tools a)"
  have split: "tools a' = discover_all loads post (fold (enter nj) (entries_read loads sj) ?R)"
    using discover_all_append [of loads "pre @ (ni, si) # mid" nj sj post "tools a"]
    by (simp add: reg' assms(2))
  have last: "last (filter (\<lambda>t. tool_key t = Some k) (before @ tj # after)) = tj"
    using assms(6,7) by (simp add: filter_empty_conv)
  have ex: "\<exists>t\<in>set (before @ tj # after). tool_key t = Some k"
    using assms(6) by auto
  have "binding (fold (enter nj) (entries_read loads sj) ?R) k = Some (owned nj tj)"
    unfolding assms(5) binding_fold_enter using last ex by (simp only: if_True)
  then have "binding (tools a') k = Some (owned nj tj)"
    by (simp add: split binding_def map_of_discover_all_other [OF assms(8)])
  moreover have "ni \<noteq> nj"
    using assms(9) by (auto simp: assms(2))
  then have "owned nj tj \<noteq> owned ni ti"
    using owned_differs [of tj ti nj ni] assms(4,6) by auto
  moreover have "distinct (map fst (tools a'))"
    by (simp add: reg' distinct_discover_all assms(10))
  ultimately show ?thesis by simp
qed

section \<open>Discovery in the laboratory\<close>

lemma two_agents_servers:
  "servers two_agents = [(''BO_Server'', child [line_adv] 0), (''Robot'', child [line_adv_robot] 0)]"
  "tools two_agents = []"
  by (simp_all add: two_agents_def start_server_def init_agent_def child_def)

lemma broken_agents_servers:
  "servers broken_agents = [(''Broken'', child [line_cut] 0), (''BO_Server'', child [line_adv] 0)]"
  "tools broken_agents = []"
  by (simp_all add: broken_agents_def start_server_def init_agent_def child_def)

lemma child_simps:
  "stdout (child ls n) = emits ls" "consumed (child ls n) = n"
  "after_read (child (l # ls) 0) = (if l = [] then child (l # ls) 0 else child (l # ls) 1)"
  by (simp_all add: child_def after_read_def readline_def emits_def)

lemma demo_capabilities:
  "capability_list doc_adv = Some [JObj suggest_entry]"
  "capability_list doc_adv_robot = Some [JObj robot_suggest, JObj robot_observe]"
  "capability_list doc_hello = None"
  "lacks_capability_list doc_hello"
  by (simp_all add: capability_list_def lacks_capability_list_def doc_adv_def doc_adv_robot_def
      doc_hello_def)

lemma demo_tool_keys:
  "tool_key (JObj suggest_entry) = Some (KStr ''suggest'')"
  "tool_key (JObj robot_suggest) = Some (KStr ''suggest'')"
  "tool_key (JObj robot_observe) = Some (KStr ''observe'')"
  by (simp_all add: tool_key_def suggest_entry_def robot_suggest_def robot_observe_def)

lemma demo_well_formed:
  "well_formed_advertisement demo_loads (child [line_adv] 0) [JObj suggest_entry]"
  "well_formed_advertisement demo_loads (child [line_adv_robot] 0)
     [JObj robot_suggest, JObj robot_observe]"
  by (simp_all add: well_formed_advertisement_def child_simps emits_def demo_loads_simps
      demo_capabilities demo_tool_keys)

lemma bo_round:
  "discover_loop demo_loads [(''BO_Server'', child [line_adv] 0)] [] =
     Some (Inr (), [(''BO_Server'', child [line_adv] 1)],
           [(KStr ''suggest'', JStr ''suggest'', owned ''BO_Server'' (JObj suggest_entry))])"
  by (simp add: discover_server_well_formed [OF demo_well_formed(1)])
     (simp add: child_simps demo_lines_nonempty enter_def suggest_entry_def)

lemma two_discovered:
  "discover_tools demo_loads two_agents = Some (Inr (), two_ready)"
  by (simp add: discover_tools_def two_agents_servers
      discover_server_well_formed [OF demo_well_formed(1)]
      discover_server_well_formed [OF demo_well_formed(2)])
     (simp add: child_simps demo_lines_nonempty two_ready_def two_agents_def start_server_def
      init_agent_def enter_def suggest_entry_def robot_suggest_def robot_observe_def)

theorem discover_registers_advertised_witness:
  "servers two_agents = [(''BO_Server'', child [line_adv] 0)] @ (''Robot'', child [line_adv_robot] 0) # [] \<and>
   discover_loop demo_loads [(''BO_Server'', child [line_adv] 0)] (tools two_agents) =
     Some (Inr (), [(''BO_Server'', child [line_adv] 1)],
           [(KStr ''suggest'', JStr ''suggest'', owned ''BO_Server'' (JObj suggest_entry))]) \<and>
   well_formed_advertisement demo_loads (child [line_adv_robot] 0)
     [JObj robot_suggest, JObj robot_observe] \<and>
   discover_tools demo_loads two_agents = Some (Inr (), two_ready) \<and>
   fst ` set (tools two_ready) = {KStr ''suggest'', KStr ''observe''} \<and>
   binding (tools two_ready) (KStr ''suggest'') = Some (owned ''Robot'' (JObj robot_suggest)) \<and>
   binding (tools two_ready) (KStr ''observe'') = Some (owned ''Robot'' (JObj robot_observe))"
proof -
  have servers: "servers two_agents =
      [(''BO_Server'', child [line_adv] 0)] @ (''Robot'', child [line_adv_robot] 0) # []"
    by (simp add: two_agents_servers)
  have reached: "discover_loop demo_loads [(''BO_Server'', child [line_adv] 0)] (tools two_agents) =
     Some (Inr (), [(''BO_Server'', child [line_adv] 1)],
           [(KStr ''suggest'', JStr ''suggest'', owned ''BO_Server'' (JObj suggest_entry))])"
    by (simp only: two_agents_servers bo_round)
  from discover_registers_advertised [OF servers reached demo_well_formed(2)]
  obtain reg2 where
    run: "discover_tools demo_loads two_agents =
            Some (Inr (), two_agents\<lparr>servers := [(''BO_Server'', child [line_adv] 1)] @
                    [(''Robot'', after_read (child [line_adv_robot] 0))], tools := reg2\<rparr>)"
    and keys: "fst ` set reg2 =
        fst ` set [(KStr ''suggest'', JStr ''suggest'', owned ''BO_Server'' (JObj suggest_entry))] \<union>
        {k. \<exists>t\<in>set [JObj robot_suggest, JObj robot_observe]. tool_key t = Some k}"
    and bound: "\<forall>k. (\<exists>t\<in>set [JObj robot_suggest, JObj robot_observe]. tool_key t = Some k) \<longrightarrow>
        binding reg2 k = Some (owned ''Robot'' (last (filter (\<lambda>t. tool_key t = Some k)
           [JObj robot_suggest, JObj robot_observe])))"
    by auto
  from run have "two_ready = two_agents\<lparr>servers := [(''BO_Server'', child [line_adv] 1)] @
                    [(''Robot'', after_read (child [line_adv_robot] 0))], tools := reg2\<rparr>"
    by (simp add: two_discovered)
  then have reg2: "reg2 = tools two_ready"
    by (rule ssubst) simp
  from keys have "fst ` set (tools two_ready) = {KStr ''suggest'', KStr ''observe''}"
    unfolding reg2 by (auto simp: demo_tool_keys)
  moreover from bound [rule_format, of "KStr ''suggest''"]
  have "binding (tools two_ready) (KStr ''suggest'') = Some (owned ''Robot'' (JObj robot_suggest))"
    unfolding reg2 by (simp add: demo_tool_keys)
  moreover from bound [rule_format, of "KStr ''observe''"]
  have "binding (tools two_ready) (KStr ''observe'') = Some (owned ''Robot'' (JObj robot_observe))"
    unfolding reg2 by (simp add: demo_tool_keys)
  ultimately show ?thesis
    using servers reached demo_well_formed(2) two_discovered by simp
qed

lemma chatty_agent_servers:
  "servers chatty_agent = [(''Chatty'', child [line_hello] 0)]"
  "tools chatty_agent = []"
  by (simp_all add: chatty_agent_def start_server_def init_agent_def child_def)

lemma broken_round:
  "discover_server demo_loads name (child [line_cut] 0) reg =
     Some (child [line_cut] 1, Inl JSONDecodeError, reg)"
  by (simp add: discover_server_def readline_def child_def emits_def demo_loads_simps
      demo_lines_nonempty)

text \<open>
  C2 as stated fails for a process behind one whose first line is rejected: the first
  line of \<^verbatim>\<open>BO_Server\<close> is a well-formed advertisement of \<^verbatim>\<open>suggest\<close>, the process
  started before it emits a line that does not parse, \<^verbatim>\<open>discover_tools\<close> ends there with
  the exception and \<^verbatim>\<open>suggest\<close> is not registered (the line of \<^verbatim>\<open>BO_Server\<close> is not read).
\<close>

theorem discover_unreached_counterexample:
  "servers broken_agents = [(''Broken'', child [line_cut] 0), (''BO_Server'', child [line_adv] 0)] \<and>
   well_formed_advertisement demo_loads (child [line_adv] 0) [JObj suggest_entry] \<and>
   tool_key (JObj suggest_entry) = Some (KStr ''suggest'') \<and>
   discover_tools demo_loads broken_agents =
     Some (Inl JSONDecodeError,
           broken_agents\<lparr>servers := [(''Broken'', child [line_cut] 1),
                                     (''BO_Server'', child [line_adv] 0)],
                          tools := []\<rparr>) \<and>
   binding [] (KStr ''suggest'') = None"
  by (simp add: broken_agents_servers demo_well_formed demo_tool_keys discover_tools_def
      broken_round binding_def)

theorem discover_without_capability_list_witness:
  "servers broken_agents = [] @ (''Broken'', child [line_cut] 0) # [(''BO_Server'', child [line_adv] 0)] \<and>
   discover_loop demo_loads [] (tools broken_agents) = Some (Inr (), [], []) \<and>
   stdout (child [line_cut] 0) (consumed (child [line_cut] 0)) = Some line_cut \<and>
   demo_loads line_cut = None \<and>
   discover_tools demo_loads broken_agents =
     Some (Inl JSONDecodeError,
           broken_agents\<lparr>servers := [(''Broken'', child [line_cut] 1),
                                     (''BO_Server'', child [line_adv] 0)],
                          tools := []\<rparr>)"
proof -
  have servers: "servers broken_agents =
      [] @ (''Broken'', child [line_cut] 0) # [(''BO_Server'', child [line_adv] 0)]"
    by (simp add: broken_agents_servers)
  have reached: "discover_loop demo_loads [] (tools broken_agents) = Some (Inr (), [], [])"
    by (simp add: broken_agents_servers)
  have line: "stdout (child [line_cut] 0) (consumed (child [line_cut] 0)) = Some line_cut"
    by (simp add: child_simps emits_def)
  have rejected: "demo_loads line_cut = None \<or>
      (\<exists>adv. demo_loads line_cut = Some adv \<and> capability_list adv = None)"
    by (simp add: demo_loads_simps)
  from discover_without_capability_list [OF servers reached line rejected]
  show ?thesis
    using servers reached line
    by (auto simp: demo_loads_simps child_simps demo_lines_nonempty)
qed

text \<open>
  C3 as stated fails for a first line that parses and lacks the capability list: the
  greeting below is no advertisement, and \<^verbatim>\<open>discover_tools\<close> returns normally, with no
  procedure registered.
\<close>

theorem discover_without_capability_list_counterexample:
  "servers chatty_agent = [(''Chatty'', child [line_hello] 0)] \<and>
   emits [line_hello] 0 = Some line_hello \<and>
   demo_loads line_hello = Some doc_hello \<and>
   capability_list doc_hello = None \<and>
   discover_tools demo_loads chatty_agent =
     Some (Inr (), chatty_agent\<lparr>servers := [(''Chatty'', child [line_hello] 1)], tools := []\<rparr>)"
  by (simp add: chatty_agent_servers demo_loads_simps demo_capabilities discover_tools_def
      discover_server_def readline_def emits_def demo_lines_nonempty child_simps
      lacks_server_tools [OF demo_capabilities(4)])
     (simp add: child_def)

lemma demo_entries_read:
  "entries_read demo_loads (child [line_adv] 0) = [JObj suggest_entry]"
  "entries_read demo_loads (child [line_adv_robot] 0) = [JObj robot_suggest, JObj robot_observe]"
  by (simp_all add: well_formed_entries_read demo_well_formed)

theorem discover_last_registered_wins_witness:
  "discover_tools demo_loads two_agents = Some (Inr (), two_ready) \<and>
   servers two_agents =
     [] @ (''BO_Server'', child [line_adv] 0) # [] @ (''Robot'', child [line_adv_robot] 0) # [] \<and>
   JObj suggest_entry \<in> set (entries_read demo_loads (child [line_adv] 0)) \<and>
   tool_key (JObj suggest_entry) = Some (KStr ''suggest'') \<and>
   entries_read demo_loads (child [line_adv_robot] 0) = [] @ JObj robot_suggest # [JObj robot_observe] \<and>
   tool_key (JObj robot_suggest) = Some (KStr ''suggest'') \<and>
   tool_key (JObj robot_observe) \<noteq> Some (KStr ''suggest'') \<and>
   distinct (map fst (servers two_agents)) \<and>
   distinct (map fst (tools two_agents)) \<and>
   binding (tools two_ready) (KStr ''suggest'') = Some (owned ''Robot'' (JObj robot_suggest)) \<and>
   owned ''Robot'' (JObj robot_suggest) \<noteq> owned ''BO_Server'' (JObj suggest_entry) \<and>
   distinct (map fst (tools two_ready))"
  using discover_last_registered_wins [of demo_loads two_agents two_ready "[]"
      "''BO_Server''" "child [line_adv] 0" "[]" "''Robot''" "child [line_adv_robot] 0" "[]"
      "JObj suggest_entry" "KStr ''suggest''" "[]" "JObj robot_suggest" "[JObj robot_observe]"]
  by (simp add: two_discovered two_agents_servers demo_entries_read demo_tool_keys)

section \<open>The response-wait loop\<close>

lemma stdout_sent [simp]: "stdout (sent l s) = stdout s"
  by (simp add: sent_def)

lemma consumed_sent [simp]: "consumed (sent l s) = consumed s"
  by (simp add: sent_def)

lemma write_line_open: "stdin_open s \<Longrightarrow> write_line l s = Inr (sent l s)"
  by (simp add: write_line_def sent_def)

lemma write_line_broken: "\<not> stdin_open s \<Longrightarrow> write_line l s = Inl BrokenPipeError"
  by (simp add: write_line_def)

lemma wait_response_step:
  assumes "stdout srv (consumed srv) = Some l" and "extraneous loads rid l"
  shows "wait_response loads rid srv = wait_response loads rid (skipped 1 srv)"
  using assms
  by (subst wait_response.simps)
     (auto simp: readline_def extraneous_def skipped_def split: option.splits json.splits)

text \<open>Extraneous lines are read and dropped, however many there are.\<close>

lemma wait_response_skip:
  assumes "\<forall>j<k. \<exists>l. stdout srv (consumed srv + j) = Some l \<and> extraneous loads rid l"
  shows "wait_response loads rid srv = wait_response loads rid (skipped k srv)"
  using assms
proof (induction k arbitrary: srv)
  case 0
  then show ?case by (simp add: skipped_def)
next
  case (Suc k)
  from Suc.prems obtain l where l: "stdout srv (consumed srv) = Some l" "extraneous loads rid l"
    by force
  have "wait_response loads rid srv = wait_response loads rid (skipped 1 srv)"
    using l by (rule wait_response_step)
  also have "\<dots> = wait_response loads rid (skipped k (skipped 1 srv))"
    by (rule Suc.IH) (use Suc.prems in \<open>auto simp: skipped_def\<close>)
  also have "skipped k (skipped 1 srv) = skipped (Suc k) srv"
    by (simp add: skipped_def)
  finally show ?case .
qed

lemma wait_response_answer:
  assumes "stdout srv (consumed srv) = Some l" and "answers loads rid l = Some resp"
  shows "wait_response loads rid srv = Some (skipped 1 srv, Inr resp)"
  using assms
  by (subst wait_response.simps)
     (auto simp: readline_def answers_def skipped_def split: option.splits json.splits if_splits)

lemma wait_response_eof:
  assumes "stdout srv (consumed srv) = Some []"
  shows "wait_response loads rid srv = Some (srv, Inr connection_closed)"
  using assms by (subst wait_response.simps) (simp add: readline_def)

lemma wait_response_garbled:
  assumes "stdout srv (consumed srv) = Some l" and "l \<noteq> []" and "loads l = None"
  shows "wait_response loads rid srv = Some (skipped 1 srv, Inl JSONDecodeError)"
  using assms by (subst wait_response.simps) (simp add: readline_def skipped_def)

section \<open>Dispatch\<close>

lemma servers_getitem_mem:
  "servers_getitem svs sn = Inr (n, s) \<Longrightarrow> n \<in> fst ` set svs"
  by (force simp: servers_getitem_def split: option.splits pykey.splits dest!: map_of_SomeD)

text \<open>Past the registry check, a call is the write of the request followed by the wait.\<close>

lemma dispatch_registered:
  assumes "py_bool (dict_get tool_call ''method'' JNull)"
    and "reg_lookup (dict_get tool_call ''method'' JNull) (tools a) = Inr (Some tool)"
    and "py_getitem tool ''server_name'' = Inr server_name"
    and "servers_getitem (servers a) server_name = Inr (sname, srv)"
    and "stdin_open srv"
  shows "dispatch_tool_call repr loads dumps now_ms tool_call a =
    (case wait_response loads now_ms
            (sent (dumps (build_request (dict_get tool_call ''method'' JNull)
                                  (dict_get tool_call ''params'' (JObj [])) now_ms)) srv) of
       None \<Rightarrow> None
     | Some (srv2, r) \<Rightarrow> Some (a\<lparr>servers := AList.update sname srv2 (servers a)\<rparr>, r))"
  using assms by (simp add: dispatch_tool_call_def Let_def write_line_open)

text \<open>
  C1 (as amended).  A call whose method is truthy (a non-empty name) and registered, to an
  owning process that takes the request (a process that answers a request has read it: its
  input pipe is open), first writes \<open>k\<close> extraneous lines (each parses to an object whose id
  differs from the request's) and then a line that parses to an object whose id equals the
  request's: \<^verbatim>\<open>dispatch_tool_call\<close> returns that parsed response.  The request line has been
  written, the \<open>k\<close> extraneous lines and the answer have been read and nothing else.
\<close>

theorem dispatch_returns_matching_response:
  assumes "py_bool (dict_get tool_call ''method'' JNull)"
    and "reg_lookup (dict_get tool_call ''method'' JNull) (tools a) = Inr (Some tool)"
    and "py_getitem tool ''server_name'' = Inr server_name"
    and "servers_getitem (servers a) server_name = Inr (sname, srv)"
    and "stdin_open srv"
    and "\<forall>j<k. \<exists>l. stdout srv (consumed srv + j) = Some l \<and> extraneous loads now_ms l"
    and "stdout srv (consumed srv + k) = Some l"
    and "answers loads now_ms l = Some response"
  shows "dispatch_tool_call repr loads dumps now_ms tool_call a =
           Some (a\<lparr>servers := AList.update sname
                   (skipped (Suc k)
                      (sent (dumps (build_request (dict_get tool_call ''method'' JNull)
                                  (dict_get tool_call ''params'' (JObj [])) now_ms)) srv))
                   (servers a)\<rparr>,
                 Inr response)"
proof -
  let ?srv1 = "sent (dumps (build_request (dict_get tool_call ''method'' JNull)
                                  (dict_get tool_call ''params'' (JObj [])) now_ms)) srv"
  have "wait_response loads now_ms ?srv1 = wait_response loads now_ms (skipped k ?srv1)"
    by (rule wait_response_skip) (use assms(6) in simp)
  also have "\<dots> = Some (skipped 1 (skipped k ?srv1), Inr response)"
    by (rule wait_response_answer[where l = l]) (use assms(7,8) in \<open>simp_all add: skipped_def\<close>)
  also have "skipped 1 (skipped k ?srv1) = skipped (Suc k) ?srv1"
    by (simp add: skipped_def)
  finally show ?thesis
    by (simp add: dispatch_registered[OF assms(1-5)])
qed

theorem dispatch_returns_matching_response_witness:
  "py_bool (dict_get suggest_call ''method'' JNull) \<and>
   reg_lookup (dict_get suggest_call ''method'' JNull) (tools (bo_ready [line_stale, line_answer])) =
     Inr (Some bo_tool) \<and>
   stdin_open (bo_server [] [line_stale, line_answer] 1) \<and>
   emits [line_adv, line_stale, line_answer] 1 = Some line_stale \<and>
   extraneous demo_loads 7 line_stale \<and>
   emits [line_adv, line_stale, line_answer] 2 = Some line_answer \<and>
   answers demo_loads 7 line_answer = Some doc_answer \<and>
   dispatch_tool_call demo_repr demo_loads demo_dumps 7 suggest_call
       (bo_ready [line_stale, line_answer]) =
     Some ((bo_ready [line_stale, line_answer])\<lparr>servers :=
             [(''BO_Server'', bo_server [line_request @ [CHR 0x0A]] [line_stale, line_answer] 3)]\<rparr>,
           Inr doc_answer)"
  using dispatch_returns_matching_response [of suggest_call "bo_ready [line_stale, line_answer]"
      bo_tool "JStr ''BO_Server''" "''BO_Server''" "bo_server [] [line_stale, line_answer] 1"
      1 demo_loads 7 line_answer doc_answer demo_repr demo_dumps]
  by (simp add: bo_ready_suggest bo_server_simps demo_request demo_line_kinds emits_def)
     (simp add: bo_ready_def numeral_3_eq_3)

text \<open>
  C1 as stated fails where the registered name is the empty string: a server may advertise
  a tool named \<^verbatim>\<open>""\<close>, discovery registers it, and a call to it is refused by the guard
  \<^verbatim>\<open>if not method\<close> although the owning process has the matching answer ready.
\<close>

theorem dispatch_empty_name_counterexample:
  "discover_tools demo_loads (anon_agent [line_answer]) = Some (Inr (), anon_ready [line_answer]) \<and>
   reg_lookup (JStr []) (tools (anon_ready [line_answer])) = Inr (Some anon_tool) \<and>
   emits [line_adv_anon, line_answer] 1 = Some line_answer \<and>
   answers demo_loads 7 line_answer = Some doc_answer \<and>
   dispatch_tool_call demo_repr demo_loads demo_dumps 7 [(''method'', JStr [])]
       (anon_ready [line_answer]) =
     Some (anon_ready [line_answer], Inr (not_found demo_repr (JStr []))) \<and>
   not_found demo_repr (JStr []) \<noteq> doc_answer"
  by (simp add: anon_discovered demo_line_kinds)
     (simp add: emits_def anon_ready_def reg_lookup_def dispatch_tool_call_def dict_get_def
       not_found_def doc_answer_def Let_def)

lemma bo_dispatch_answer:
  "dispatch_tool_call demo_repr demo_loads demo_dumps 7 suggest_call (bo_ready [line_answer]) =
     Some ((bo_ready [line_answer])\<lparr>servers :=
             [(''BO_Server'', bo_server [line_request @ [CHR 0x0A]] [line_answer] 2)]\<rparr>,
           Inr doc_answer)"
proof -
  have "wait_response demo_loads 7 (bo_server ws [line_answer] 1) =
          Some (bo_server ws [line_answer] 2, Inr doc_answer)" for ws
    using wait_response_answer [of "bo_server ws [line_answer] 1" line_answer demo_loads 7 doc_answer]
    by (simp add: bo_server_simps emits_def demo_line_kinds numeral_2_eq_2)
  then show ?thesis
    by (simp add: dispatch_registered [OF bo_ready_suggest] bo_server_simps demo_request)
       (simp add: bo_ready_def)
qed

lemma bo_dispatch_cut:
  "dispatch_tool_call demo_repr demo_loads demo_dumps 7 suggest_call (bo_ready [line_cut]) =
     Some ((bo_ready [line_cut])\<lparr>servers :=
             [(''BO_Server'', bo_server [line_request @ [CHR 0x0A]] [line_cut] 2)]\<rparr>,
           Inl JSONDecodeError)"
proof -
  have "wait_response demo_loads 7 (bo_server ws [line_cut] 1) =
          Some (bo_server ws [line_cut] 2, Inl JSONDecodeError)" for ws
    using wait_response_garbled [of "bo_server ws [line_cut] 1" line_cut demo_loads 7]
    by (simp add: bo_server_simps emits_def demo_loads_simps demo_lines_nonempty numeral_2_eq_2)
  then show ?thesis
    by (simp add: dispatch_registered [OF bo_ready_suggest] bo_server_simps demo_request)
       (simp add: bo_ready_def)
qed

lemma bo_ready_lookup:
  "reg_lookup (JStr ''suggest'') (tools (bo_ready ls)) = Inr (Some bo_tool)"
  by (simp add: bo_ready_def reg_lookup_def)

lemma anon_ready_lookup:
  "reg_lookup (JStr []) (tools (anon_ready ls)) = Inr (Some anon_tool)"
  by (simp add: anon_ready_def reg_lookup_def)

lemma bo_dead_lookup:
  "reg_lookup (JStr ''suggest'') (tools bo_dead) = Inr (Some bo_tool)"
  "servers_getitem (servers bo_dead) (JStr ''BO_Server'') =
     Inr (''BO_Server'', exited (bo_server [] [] 1))"
  "stdout (exited (bo_server [] [] 1)) (consumed (exited (bo_server [] [] 1))) = Some []"
  by (simp_all add: bo_dead_def reg_lookup_def servers_getitem_def exited_def bo_server_def
      emits_def)

lemma bo_dead_dispatch:
  "dispatch_tool_call demo_repr demo_loads demo_dumps 7 suggest_call bo_dead =
     Some (bo_dead, Inl BrokenPipeError)"
  by (simp add: dispatch_tool_call_def Let_def suggest_call_def dict_get_def bo_dead_lookup
      bo_tool_def suggest_entry_def write_line_def exited_def)

lemma anon_dispatch_refused:
  "dispatch_tool_call demo_repr demo_loads demo_dumps 7 [(''method'', JStr [])] (anon_ready ls) =
     Some (anon_ready ls, Inr (not_found demo_repr (JStr [])))"
  by (simp add: dispatch_tool_call_def dict_get_def)

text \<open>
  C4 (as amended).  A call past the registry check whose request has been written (a line
  is read in the wait loop only then), to an owning process that writes \<open>k\<close> extraneous
  lines and then a line that \<^verbatim>\<open>json.loads\<close> rejects: the decoding error leaves
  \<^verbatim>\<open>dispatch_tool_call\<close> as a raised exception, no error value is returned.  The code has
  no handler around \<^verbatim>\<open>json.loads\<close>, and a line that does not parse has no id to match.
\<close>

theorem dispatch_parse_failure_raises:
  assumes "py_bool (dict_get tool_call ''method'' JNull)"
    and "reg_lookup (dict_get tool_call ''method'' JNull) (tools a) = Inr (Some tool)"
    and "py_getitem tool ''server_name'' = Inr server_name"
    and "servers_getitem (servers a) server_name = Inr (sname, srv)"
    and "stdin_open srv"
    and "\<forall>j<k. \<exists>l. stdout srv (consumed srv + j) = Some l \<and> extraneous loads now_ms l"
    and "stdout srv (consumed srv + k) = Some l"
    and "l \<noteq> []" and "loads l = None"
  shows "dispatch_tool_call repr loads dumps now_ms tool_call a =
           Some (a\<lparr>servers := AList.update sname
                   (skipped (Suc k)
                      (sent (dumps (build_request (dict_get tool_call ''method'' JNull)
                                  (dict_get tool_call ''params'' (JObj [])) now_ms)) srv))
                   (servers a)\<rparr>,
                 Inl JSONDecodeError)"
proof -
  let ?srv1 = "sent (dumps (build_request (dict_get tool_call ''method'' JNull)
                                  (dict_get tool_call ''params'' (JObj [])) now_ms)) srv"
  have "wait_response loads now_ms ?srv1 = wait_response loads now_ms (skipped k ?srv1)"
    by (rule wait_response_skip) (use assms(6) in simp)
  also have "\<dots> = Some (skipped 1 (skipped k ?srv1), Inl JSONDecodeError)"
    by (rule wait_response_garbled[where l = l]) (use assms(7-9) in \<open>simp_all add: skipped_def\<close>)
  also have "skipped 1 (skipped k ?srv1) = skipped (Suc k) ?srv1"
    by (simp add: skipped_def)
  finally show ?thesis
    by (simp add: dispatch_registered[OF assms(1-5)])
qed

theorem dispatch_parse_failure_raises_witness:
  "py_bool (dict_get suggest_call ''method'' JNull) \<and>
   reg_lookup (dict_get suggest_call ''method'' JNull) (tools (bo_ready [line_stale, line_cut])) =
     Inr (Some bo_tool) \<and>
   stdin_open (bo_server [] [line_stale, line_cut] 1) \<and>
   emits [line_adv, line_stale, line_cut] 1 = Some line_stale \<and>
   extraneous demo_loads 7 line_stale \<and>
   emits [line_adv, line_stale, line_cut] 2 = Some line_cut \<and>
   line_cut \<noteq> [] \<and> demo_loads line_cut = None \<and>
   dispatch_tool_call demo_repr demo_loads demo_dumps 7 suggest_call
       (bo_ready [line_stale, line_cut]) =
     Some ((bo_ready [line_stale, line_cut])\<lparr>servers :=
             [(''BO_Server'', bo_server [line_request @ [CHR 0x0A]] [line_stale, line_cut] 3)]\<rparr>,
           Inl JSONDecodeError)"
  using dispatch_parse_failure_raises [of suggest_call "bo_ready [line_stale, line_cut]"
      bo_tool "JStr ''BO_Server''" "''BO_Server''" "bo_server [] [line_stale, line_cut] 1"
      1 demo_loads 7 line_cut demo_repr demo_dumps]
  by (simp add: bo_ready_suggest bo_server_simps demo_request demo_line_kinds emits_def
        demo_loads_simps demo_lines_nonempty)
     (simp add: bo_ready_def numeral_3_eq_3)

text \<open>
  C4 as stated fails: the line below carries the id of the request and is cut short; the
  call ends with the exception \<^verbatim>\<open>JSONDecodeError\<close>, not with a returned error value.
\<close>

theorem dispatch_parse_failure_counterexample:
  "reg_lookup (JStr ''suggest'') (tools (bo_ready [line_cut])) = Inr (Some bo_tool) \<and>
   emits [line_adv, line_cut] 1 = Some line_cut \<and>
   demo_loads line_cut = None \<and>
   dispatch_tool_call demo_repr demo_loads demo_dumps 7 suggest_call (bo_ready [line_cut]) =
     Some ((bo_ready [line_cut])\<lparr>servers :=
             [(''BO_Server'', bo_server [line_request @ [CHR 0x0A]] [line_cut] 2)]\<rparr>,
           Inl JSONDecodeError)"
  by (simp add: bo_dispatch_cut bo_ready_lookup demo_loads_simps emits_def)

text \<open>
  C6 (as amended).  A call whose method is truthy and registered, to an owning process
  that still reads its input, so that the request is written, and whose output ends after
  \<open>k\<close> extraneous lines (each parses to an object whose id differs from the request's):
  \<^verbatim>\<open>dispatch_tool_call\<close> returns the error value
  \<^verbatim>\<open>{"error": "Server connection closed."}\<close>.  It has written the request, read the \<open>k\<close>
  lines and met the end of the stream; in particular it returns.
\<close>

theorem dispatch_connection_closed:
  assumes "py_bool (dict_get tool_call ''method'' JNull)"
    and "reg_lookup (dict_get tool_call ''method'' JNull) (tools a) = Inr (Some tool)"
    and "py_getitem tool ''server_name'' = Inr server_name"
    and "servers_getitem (servers a) server_name = Inr (sname, srv)"
    and "stdin_open srv"
    and "\<forall>j<k. \<exists>l. stdout srv (consumed srv + j) = Some l \<and> extraneous loads now_ms l"
    and "stdout srv (consumed srv + k) = Some []"
  shows "dispatch_tool_call repr loads dumps now_ms tool_call a =
           Some (a\<lparr>servers := AList.update sname
                   (skipped k
                      (sent (dumps (build_request (dict_get tool_call ''method'' JNull)
                                  (dict_get tool_call ''params'' (JObj [])) now_ms)) srv))
                   (servers a)\<rparr>,
                 Inr connection_closed)"
proof -
  let ?srv1 = "sent (dumps (build_request (dict_get tool_call ''method'' JNull)
                                  (dict_get tool_call ''params'' (JObj [])) now_ms)) srv"
  have "wait_response loads now_ms ?srv1 = wait_response loads now_ms (skipped k ?srv1)"
    by (rule wait_response_skip) (use assms(6) in simp)
  also have "\<dots> = Some (skipped k ?srv1, Inr connection_closed)"
    by (rule wait_response_eof) (use assms(7) in \<open>simp add: skipped_def\<close>)
  finally show ?thesis
    by (simp add: dispatch_registered[OF assms(1-5)])
qed

theorem dispatch_connection_closed_witness:
  "py_bool (dict_get suggest_call ''method'' JNull) \<and>
   reg_lookup (dict_get suggest_call ''method'' JNull) (tools (bo_ready [line_stale])) =
     Inr (Some bo_tool) \<and>
   stdin_open (bo_server [] [line_stale] 1) \<and>
   emits [line_adv, line_stale] 1 = Some line_stale \<and>
   extraneous demo_loads 7 line_stale \<and>
   emits [line_adv, line_stale] 2 = Some [] \<and>
   dispatch_tool_call demo_repr demo_loads demo_dumps 7 suggest_call (bo_ready [line_stale]) =
     Some ((bo_ready [line_stale])\<lparr>servers :=
             [(''BO_Server'', bo_server [line_request @ [CHR 0x0A]] [line_stale] 2)]\<rparr>,
           Inr connection_closed)"
  using dispatch_connection_closed [of suggest_call "bo_ready [line_stale]"
      bo_tool "JStr ''BO_Server''" "''BO_Server''" "bo_server [] [line_stale] 1"
      1 demo_loads 7 demo_repr demo_dumps]
  by (simp add: bo_ready_suggest bo_server_simps demo_request demo_line_kinds emits_def)
     (simp add: bo_ready_def numeral_2_eq_2)

text \<open>
  C6 as stated fails in three ways.  The stream of the first server ends before any
  answer, after a line that does not parse: the call raises \<^verbatim>\<open>JSONDecodeError\<close> at that
  line.  The second server has registered a tool named \<^verbatim>\<open>""\<close> and its stream is at its
  end: the call is refused by the guard \<^verbatim>\<open>if not method\<close> with the not-found value.  The
  third server has exited, the ordinary cause of an end of stream: the write of the
  request raises \<^verbatim>\<open>BrokenPipeError\<close>, and the end of the stream is never read.
\<close>

theorem dispatch_connection_closed_counterexample:
  "reg_lookup (JStr ''suggest'') (tools (bo_ready [line_cut])) = Inr (Some bo_tool) \<and>
   emits [line_adv, line_cut] 1 = Some line_cut \<and>
   answers demo_loads 7 line_cut = None \<and>
   emits [line_adv, line_cut] 2 = Some [] \<and>
   dispatch_tool_call demo_repr demo_loads demo_dumps 7 suggest_call (bo_ready [line_cut]) =
     Some ((bo_ready [line_cut])\<lparr>servers :=
             [(''BO_Server'', bo_server [line_request @ [CHR 0x0A]] [line_cut] 2)]\<rparr>,
           Inl JSONDecodeError) \<and>
   reg_lookup (JStr []) (tools (anon_ready [])) = Inr (Some anon_tool) \<and>
   emits [line_adv_anon] 1 = Some [] \<and>
   dispatch_tool_call demo_repr demo_loads demo_dumps 7 [(''method'', JStr [])] (anon_ready []) =
     Some (anon_ready [], Inr (not_found demo_repr (JStr []))) \<and>
   not_found demo_repr (JStr []) \<noteq> connection_closed \<and>
   reg_lookup (JStr ''suggest'') (tools bo_dead) = Inr (Some bo_tool) \<and>
   servers_getitem (servers bo_dead) (JStr ''BO_Server'') =
     Inr (''BO_Server'', exited (bo_server [] [] 1)) \<and>
   stdout (exited (bo_server [] [] 1)) (consumed (exited (bo_server [] [] 1))) = Some [] \<and>
   dispatch_tool_call demo_repr demo_loads demo_dumps 7 suggest_call bo_dead =
     Some (bo_dead, Inl BrokenPipeError)"
  using bo_dead_lookup bo_dead_dispatch
  by (simp add: bo_dispatch_cut anon_dispatch_refused bo_ready_lookup anon_ready_lookup
      demo_loads_simps emits_def answers_def demo_lines_nonempty not_found_def
      connection_closed_def)

text \<open>
  C5.  A call whose method is missing, \<^verbatim>\<open>None\<close> or otherwise falsy, or is a name absent
  from the registry, returns the value \<^verbatim>\<open>{"error": "Tool '...' not found."}\<close>, and the agent
  after the call is the agent before it: nothing was written to or read from any server,
  the registry is unchanged.
\<close>

theorem dispatch_unknown_procedure:
  assumes "\<not> py_bool (dict_get tool_call ''method'' JNull) \<or>
           (\<exists>k. key_of (dict_get tool_call ''method'' JNull) = Some k \<and> map_of (tools a) k = None)"
  shows "dispatch_tool_call repr loads dumps now_ms tool_call a =
           Some (a, Inr (not_found repr (dict_get tool_call ''method'' JNull)))"
  using assms by (auto simp: dispatch_tool_call_def reg_lookup_def Let_def)

theorem dispatch_unknown_procedure_witness:
  "key_of (dict_get [(''method'', JStr ''measure'')] ''method'' JNull) = Some (KStr ''measure'') \<and>
   map_of (tools (bo_ready [line_answer])) (KStr ''measure'') = None \<and>
   dispatch_tool_call demo_repr demo_loads demo_dumps 7 [(''method'', JStr ''measure'')]
       (bo_ready [line_answer]) =
     Some (bo_ready [line_answer], Inr (not_found demo_repr (JStr ''measure'')))"
  using dispatch_unknown_procedure [of "[(''method'', JStr ''measure'')]" "bo_ready [line_answer]"
      demo_repr demo_loads demo_dumps 7]
  by (simp add: dict_get_def bo_ready_def)

text \<open>
  C10.  Whatever a call of \<^verbatim>\<open>dispatch_tool_call\<close> returns or raises, the registry is the
  same after the call, and so are the names of the registered servers and their order.
\<close>

theorem dispatch_frame:
  assumes "dispatch_tool_call repr loads dumps now_ms tool_call a = Some (a', r)"
  shows "tools a' = tools a \<and> map fst (servers a') = map fst (servers a) \<and> history a' = history a"
  using assms
  by (auto simp: dispatch_tool_call_def Let_def AList.update_keys servers_getitem_mem
      split: if_splits sum.splits option.splits)

theorem dispatch_frame_witness:
  "dispatch_tool_call demo_repr demo_loads demo_dumps 7 suggest_call (bo_ready [line_answer]) =
     Some ((bo_ready [line_answer])\<lparr>servers :=
             [(''BO_Server'', bo_server [line_request @ [CHR 0x0A]] [line_answer] 2)]\<rparr>,
           Inr doc_answer) \<and>
   tools ((bo_ready [line_answer])\<lparr>servers :=
             [(''BO_Server'', bo_server [line_request @ [CHR 0x0A]] [line_answer] 2)]\<rparr>) =
     tools (bo_ready [line_answer]) \<and>
   map fst (servers ((bo_ready [line_answer])\<lparr>servers :=
             [(''BO_Server'', bo_server [line_request @ [CHR 0x0A]] [line_answer] 2)]\<rparr>)) =
     map fst (servers (bo_ready [line_answer]))"
  using dispatch_frame [OF bo_dispatch_answer] bo_dispatch_answer by simp

section \<open>Every registered tool has its owner\<close>

text \<open>
  The agent starts in such a state, and \<^verbatim>\<open>start_server\<close>, \<^verbatim>\<open>discover_tools\<close> and
  \<^verbatim>\<open>dispatch_tool_call\<close> keep it, whatever they return or raise.
\<close>

lemma set_update_subset: "set (AList.update k v al) \<subseteq> insert (k, v) (set al)"
  by (induction al) auto

lemma owners_known_update:
  assumes "owners_known names reg" and "sn \<in> names"
    and "py_getitem tool ''server_name'' = Inr (JStr sn)"
  shows "owners_known names (AList.update k (orig, tool) reg)"
  using assms set_update_subset [of k "(orig, tool)" reg]
  by (fastforce simp: owners_known_def)

lemma owners_known_register:
  assumes "owners_known names reg" and "name \<in> names"
  shows "owners_known names (snd (register_tools name ts reg))"
  using assms(1)
proof (induction ts arbitrary: reg)
  case Nil
  then show ?case by simp
next
  case (Cons t ts)
  show ?case
  proof (cases "tool_key t")
    case None
    from register_tools_unkeyed [OF None, of name ts reg] Cons.prems show ?thesis by auto
  next
    case (Some k)
    then obtain d n where t: "t = JObj d" "map_of d ''name'' = Some n" "key_of n = Some k"
      by (cases t) (auto simp: tool_key_def split: option.splits)
    have "owners_known names (enter name t reg)"
      unfolding enter_def using t Cons.prems assms(2)
      by (auto intro!: owners_known_update simp: owned_def AList.update_conv')
    from Cons.IH [OF this] show ?thesis
      by (simp add: register_tools_keyed [OF Some] del: register_tools.simps)
  qed
qed

lemma discover_server_owned:
  assumes "discover_server loads name srv reg = Some (srv', r, reg')"
    and "owners_known names reg" and "name \<in> names"
  shows "owners_known names reg'"
  using assms owners_known_register [OF assms(2,3)]
  by (auto simp: discover_server_def split: option.splits sum.splits prod.splits)
     (metis snd_conv)+

lemma discover_loop_owned:
  assumes "discover_loop loads svs reg = Some (r, svs', reg')"
    and "owners_known names reg" and "fst ` set svs \<subseteq> names"
  shows "owners_known names reg' \<and> map fst svs' = map fst svs"
  using assms
proof (induction svs arbitrary: reg svs' r)
  case Nil
  then show ?case by simp
next
  case (Cons x svs)
  obtain n s where x: "x = (n, s)" by (cases x)
  from Cons.prems(1) obtain s' r1 reg1 where
    step: "discover_server loads n s reg = Some (s', r1, reg1)"
    by (auto simp: x split: option.splits)
  have n: "n \<in> names" using Cons.prems(3) by (simp add: x)
  have reg1: "owners_known names reg1"
    by (rule discover_server_owned [OF step Cons.prems(2) n])
  show ?case
  proof (cases r1)
    case (Inl e)
    with Cons.prems(1) step reg1 show ?thesis by (auto simp: x)
  next
    case (Inr u)
    with Cons.prems(1) step obtain rest' where
      rest: "discover_loop loads svs reg1 = Some (r, rest', reg')" and svs': "svs' = (n, s') # rest'"
      by (auto simp: x split: option.splits)
    from Cons.IH [OF rest reg1] Cons.prems(3) show ?thesis
      by (simp add: svs' x)
  qed
qed

lemma registry_owned_init: "registry_owned init_agent"
  by (simp add: registry_owned_def owners_known_def init_agent_def)

lemma registry_owned_start_server:
  "registry_owned a \<Longrightarrow> registry_owned (start_server name out a)"
  by (fastforce simp: registry_owned_def owners_known_def start_server_def AList.dom_update)

lemma registry_owned_discover_tools:
  assumes "registry_owned a" and "discover_tools loads a = Some (r, a')"
  shows "registry_owned a'"
proof -
  from assms(2) obtain svs' reg' where
    run: "discover_loop loads (servers a) (tools a) = Some (r, svs', reg')"
    and a': "a' = a\<lparr>servers := svs', tools := reg'\<rparr>"
    by (auto simp: discover_tools_def split: option.splits)
  from discover_loop_owned [OF run, of "fst ` set (servers a)"] assms(1)
  have "owners_known (fst ` set (servers a)) reg'" and "map fst svs' = map fst (servers a)"
    by (simp_all add: registry_owned_def)
  moreover from this(2) have "fst ` set svs' = fst ` set (servers a)"
    by (metis set_map)
  ultimately show ?thesis
    by (simp add: registry_owned_def a')
qed

lemma registry_owned_dispatch:
  assumes "registry_owned a"
    and "dispatch_tool_call repr loads dumps now_ms tool_call a = Some (a', r)"
  shows "registry_owned a'"
proof -
  from assms(2) have "tools a' = tools a \<and> map fst (servers a') = map fst (servers a)"
    by (auto simp: dispatch_tool_call_def Let_def AList.update_keys servers_getitem_mem
        split: if_splits sum.splits option.splits)
  then have "tools a' = tools a" and "fst ` set (servers a') = fst ` set (servers a)"
    by (simp, metis set_map)
  with assms(1) show ?thesis by (simp add: registry_owned_def)
qed

text \<open>In such a state every registered tool has an owning process to dispatch to.\<close>

lemma registered_has_owner:
  assumes "registry_owned a" and "reg_lookup method (tools a) = Inr (Some tool)"
  shows "\<exists>sn srv. py_getitem tool ''server_name'' = Inr (JStr sn) \<and>
                  servers_getitem (servers a) (JStr sn) = Inr (sn, srv)"
proof -
  from assms(2) obtain k orig where "map_of (tools a) k = Some (orig, tool)"
    by (auto simp: reg_lookup_def split: option.splits)
  then have "(k, orig, tool) \<in> set (tools a)" by (rule map_of_SomeD)
  with assms(1) obtain sn where sn: "sn \<in> fst ` set (servers a)"
    "py_getitem tool ''server_name'' = Inr (JStr sn)"
    by (fastforce simp: registry_owned_def owners_known_def)
  from sn(1) obtain srv where "map_of (servers a) sn = Some srv"
    by (metis domD dom_map_of_conv_image_fst)
  with sn(2) show ?thesis by (auto simp: servers_getitem_def)
qed

section \<open>The planner prompt\<close>

lemma planner_tool_lines_exposed:
  "exposed reg = exposed reg' \<Longrightarrow>
   planner_tool_lines repr reg prompt = planner_tool_lines repr reg' prompt"
proof (induction reg arbitrary: reg' prompt)
  case Nil
  then show ?case by (simp add: exposed_def)
next
  case (Cons x reg)
  obtain k name tool where x: "x = (k, name, tool)" by (cases x)
  from Cons.prems obtain k' tool' rest' where
    reg': "reg' = (k', name, tool') # rest'"
    and descr: "py_getitem tool ''description'' = py_getitem tool' ''description''"
    and rest: "exposed reg = exposed rest'"
    by (cases reg') (auto simp: exposed_def x)
  show ?case
    by (simp add: x reg' descr Cons.IH [OF rest] split: sum.splits)
qed

text \<open>
  C9.  The planner prompt is a function of the names and descriptions in the registry:
  two agents whose registries hold the same procedures in the same order of
  registration, with the same names and the same descriptions, get the same prompt (or the
  same exception), however the parameter schemas, the owners or any other field of the
  entries differ.
\<close>

theorem planner_prompt_depends_on_names_and_descriptions:
  assumes "exposed (tools a) = exposed (tools b)"
  shows "build_planner_system_prompt repr a = build_planner_system_prompt repr b"
  using planner_tool_lines_exposed [OF assms]
  by (simp add: build_planner_system_prompt_def)

theorem planner_prompt_depends_on_names_and_descriptions_witness:
  "exposed (tools (init_agent\<lparr>tools := schema_plain\<rparr>)) =
     exposed (tools (init_agent\<lparr>tools := schema_rich\<rparr>)) \<and>
   schema_plain \<noteq> schema_rich \<and>
   build_planner_system_prompt demo_repr (init_agent\<lparr>tools := schema_plain\<rparr>) =
     build_planner_system_prompt demo_repr (init_agent\<lparr>tools := schema_rich\<rparr>) \<and>
   build_planner_system_prompt demo_repr (init_agent\<lparr>tools := schema_plain\<rparr>) =
     Inr (planner_role_heading @ planner_role @ planner_tools_heading @
          ''- suggest: next point'' @ [CHR 0x0A] @ ''- observe: read sensor'' @ [CHR 0x0A] @
          planner_tools_end @ planner_task_heading @ planner_task)"
  using planner_prompt_depends_on_names_and_descriptions
    [of "init_agent\<lparr>tools := schema_plain\<rparr>" "init_agent\<lparr>tools := schema_rich\<rparr>" demo_repr]
  by (simp add: exposed_def schema_plain_def schema_rich_def build_planner_system_prompt_def)

end
